theory Spec2Isabelle
  imports Complex_Main "HOL-Library.Multiset"
begin

section \<open>Data model of \<^verbatim>\<open>index.ts\<close>\<close>

text \<open>
  JavaScript numbers are modelled as \<^typ>\<open>real\<close>: the development is about the
  arithmetic the program writes down, not about IEEE rounding, \<^verbatim>\<open>NaN\<close> or
  infinities. Where the program uses \<^verbatim>\<open>Infinity\<close> as a start value
  (\<^verbatim>\<open>lowestStdDev\<close>) it is an explicit \<open>None\<close>.

  Player objects live in a store and are handled through their addresses, because
  \<^verbatim>\<open>normalizeAndScore\<close> assigns to a field of the objects it is given and the
  arrays of \<^verbatim>\<open>main\<close> hold references to those same objects.
\<close>

record Player =
  player_id :: string
  historical_event_engagements :: real
  historical_messages_sent :: real
  days_active_last_30 :: real
  engagement_score :: real

type_synonym ref = nat

type_synonym heap = "ref \<Rightarrow> Player"

text \<open>
  \<^verbatim>\<open>interface Team { id; players; total_engagement_score }\<close>. The field
  \<^verbatim>\<open>id\<close> is called \<open>team_id\<close> (\<open>id\<close> is the identity function of HOL);
  \<open>players\<close> holds references, in the order of the \<^verbatim>\<open>push\<close> calls.
\<close>

record Team =
  team_id :: nat
  players :: "ref list"
  total_engagement_score :: real

text \<open>
  The numeric keys of \<^verbatim>\<open>Player\<close> that a \<^verbatim>\<open>(keyof Player)[]\<close> can name and
  that \<^verbatim>\<open>player[metric] as number\<close> reads as a number.
\<close>

datatype metric =
    Historical_event_engagements
  | Historical_messages_sent
  | Days_active_last_30
  | Engagement_score

fun get_metric :: "Player \<Rightarrow> metric \<Rightarrow> real" where
  "get_metric p Historical_event_engagements = historical_event_engagements p"
| "get_metric p Historical_messages_sent = historical_messages_sent p"
| "get_metric p Days_active_last_30 = days_active_last_30 p"
| "get_metric p Engagement_score = engagement_score p"

text \<open>One row of the parsed CSV table (\<^verbatim>\<open>records: any[]\<close>), with the four columns read.\<close>

record CsvRecord =
  rec_player_id :: string
  rec_historical_event_engagements :: real
  rec_historical_messages_sent :: real
  rec_days_active_last_30 :: real

section \<open>The seeded generator\<close>

text \<open>
  \<^verbatim>\<open>seedrandom(trialSeed)\<close> is a library call: it returns a closure with hidden
  state whose every call yields a number in \<open>[0, 1)\<close>. The library is a parameter of
  the model: \<open>seedrandom\<close> builds the state from the seed string, \<open>rng\<close> is one call
  of the closure (the number and the state after it), and \<open>number_to_string\<close> is the
  rendering of \<^verbatim>\<open>argv.seed\<close> inside the template literal. The range of the numbers is
  part of the type.
\<close>

typedef unit_interval = "{x :: real. 0 \<le> x \<and> x < 1}"
  by (rule exI [of _ 0]) simp

record 'g library =
  seedrandom :: "string \<Rightarrow> 'g"
  rng :: "'g \<Rightarrow> unit_interval \<times> 'g"
  number_to_string :: "real \<Rightarrow> string"

section \<open>\<^verbatim>\<open>shuffle\<close>\<close>

text \<open>
  \<^verbatim>\<open>Math.floor(rng() * currentIndex)\<close>, read before \<^verbatim>\<open>currentIndex--\<close>.
\<close>

definition random_index :: "unit_interval \<Rightarrow> nat \<Rightarrow> nat" where
  "random_index r currentIndex = nat \<lfloor>Rep_unit_interval r * real currentIndex\<rfloor>"

text \<open>
  The \<^verbatim>\<open>while (currentIndex != 0)\<close> loop; the first argument of the recursion is
  \<^verbatim>\<open>currentIndex\<close> at the loop head. The destructuring assignment reads both
  elements first, then writes position \<^verbatim>\<open>currentIndex\<close>, then position
  \<^verbatim>\<open>randomIndex\<close>.
\<close>

fun shuffle_loop ::
  "('g \<Rightarrow> unit_interval \<times> 'g) \<Rightarrow> nat \<Rightarrow> 'a list \<Rightarrow> 'g \<Rightarrow> 'a list \<times> 'g" where
  "shuffle_loop next_number 0 arr g = (arr, g)"
| "shuffle_loop next_number (Suc n) arr g =
     (case next_number g of (r, g') \<Rightarrow>
        let randomIndex = random_index r (Suc n);
            currentIndex = n
        in shuffle_loop next_number currentIndex
             (arr[currentIndex := arr ! randomIndex, randomIndex := arr ! currentIndex]) g')"

definition shuffle :: "('g \<Rightarrow> unit_interval \<times> 'g) \<Rightarrow> 'a list \<Rightarrow> 'g \<Rightarrow> 'a list \<times> 'g" where
  "shuffle next_number arr g = shuffle_loop next_number (length arr) arr g"

section \<open>\<^verbatim>\<open>normalizeAndScore\<close> and \<^verbatim>\<open>readAndProcessPlayerData\<close>\<close>

text \<open>\<^verbatim>\<open>Math.min(...values)\<close> and \<^verbatim>\<open>Math.max(...values)\<close> of a non-empty list.\<close>

fun Math_min :: "real \<Rightarrow> real list \<Rightarrow> real" where
  "Math_min v [] = v"
| "Math_min v (w # ws) = Math_min (min v w) ws"

fun Math_max :: "real \<Rightarrow> real list \<Rightarrow> real" where
  "Math_max v [] = v"
| "Math_max v (w # ws) = Math_max (max v w) ws"

text \<open>
  The first \<^verbatim>\<open>metrics.forEach\<close>: the table \<^verbatim>\<open>minMax\<close>, filled key by key from
  the values the players have in the store at that moment.
\<close>

fun min_max_table ::
  "heap \<Rightarrow> ref \<Rightarrow> ref list \<Rightarrow> metric list \<Rightarrow> (metric \<rightharpoonup> real \<times> real) \<Rightarrow> (metric \<rightharpoonup> real \<times> real)" where
  "min_max_table h p ps [] minMax = minMax"
| "min_max_table h p ps (m # ms) minMax =
     (let v = get_metric (h p) m;
          vals = map (\<lambda>q. get_metric (h q) m) ps
      in min_max_table h p ps ms (minMax(m \<mapsto> (Math_min v vals, Math_max v vals))))"

text \<open>
  The inner \<^verbatim>\<open>metrics.forEach\<close> of the scoring callback, with the running
  \<^verbatim>\<open>normalizedScoreSum\<close>; a key missing from the table is skipped
  (\<^verbatim>\<open>if (minMaxMetric)\<close>).
\<close>

fun normalized_sum :: "(metric \<rightharpoonup> real \<times> real) \<Rightarrow> Player \<Rightarrow> metric list \<Rightarrow> real \<Rightarrow> real" where
  "normalized_sum minMax player [] normalizedScoreSum = normalizedScoreSum"
| "normalized_sum minMax player (m # ms) normalizedScoreSum =
     (let v = get_metric player m
      in case minMax m of
           None \<Rightarrow> normalized_sum minMax player ms normalizedScoreSum
         | Some (mn, mx) \<Rightarrow>
             let normalizedValue = (if mx - mn = 0 then 0 else (v - mn) / (mx - mn))
             in normalized_sum minMax player ms (normalizedScoreSum + normalizedValue))"

text \<open>
  The \<^verbatim>\<open>players.map\<close> callback run over the array from left to right: each call
  assigns \<^verbatim>\<open>player.engagement_score\<close> in the store and returns the same reference.
  The divisor \<^verbatim>\<open>metrics.length\<close> is \<open>3\<close> in the program's only call; what a
  division by an empty list's length gives is not modelled.
\<close>

fun score_players :: "(metric \<rightharpoonup> real \<times> real) \<Rightarrow> metric list \<Rightarrow> heap \<Rightarrow> ref list \<Rightarrow> heap \<times> ref list" where
  "score_players minMax metrics h [] = (h, [])"
| "score_players minMax metrics h (p # ps) =
     (let normalizedScoreSum = normalized_sum minMax (h p) metrics 0;
          h' = h(p := (h p)\<lparr>engagement_score := normalizedScoreSum / real (length metrics)\<rparr>)
      in case score_players minMax metrics h' ps of (h'', out) \<Rightarrow> (h'', p # out))"

text \<open>
  \<^verbatim>\<open>normalizeAndScore(players, metrics)\<close>: the store before the call and the array
  of references go in, the store after the call and the returned array come out. For
  an empty array the table would hold \<^verbatim>\<open>Infinity\<close> and \<^verbatim>\<open>-Infinity\<close>, which
  no callback ever reads since \<^verbatim>\<open>players.map\<close> has nothing to visit; that case is
  written out first.
\<close>

definition normalizeAndScore :: "heap \<Rightarrow> ref list \<Rightarrow> metric list \<Rightarrow> heap \<times> ref list" where
  "normalizeAndScore h ps metrics =
     (case ps of
        [] \<Rightarrow> (h, [])
      | p # rest \<Rightarrow> score_players (min_max_table h p rest metrics Map.empty) metrics h ps)"

text \<open>
  \<^verbatim>\<open>records.map(record => ({...}))\<close>: one fresh object per row, allocated at the
  next free address, with \<^verbatim>\<open>engagement_score: 0\<close>.
\<close>

definition new_player :: "CsvRecord \<Rightarrow> Player" where
  "new_player r =
     \<lparr>player_id = rec_player_id r,
      historical_event_engagements = rec_historical_event_engagements r,
      historical_messages_sent = rec_historical_messages_sent r,
      days_active_last_30 = rec_days_active_last_30 r,
      engagement_score = 0\<rparr>"

fun allocate_players :: "heap \<Rightarrow> ref \<Rightarrow> CsvRecord list \<Rightarrow> heap \<times> ref list" where
  "allocate_players h a [] = (h, [])"
| "allocate_players h a (r # rs) =
     (case allocate_players (h(a := new_player r)) (Suc a) rs of (h', ps) \<Rightarrow> (h', a # ps))"

definition metrics_used :: "metric list" where
  "metrics_used = [Historical_event_engagements, Historical_messages_sent, Days_active_last_30]"

text \<open>
  \<^verbatim>\<open>readAndProcessPlayerData\<close> after the file has been read and parsed: \<open>records\<close>
  is what \<^verbatim>\<open>parse\<close> returned, \<open>h0\<close> the store before the call, whose addresses
  from \<open>0\<close> on are free.
\<close>

definition readAndProcessPlayerData :: "heap \<Rightarrow> CsvRecord list \<Rightarrow> heap \<times> ref list" where
  "readAndProcessPlayerData h0 records =
     (case allocate_players h0 0 records of (h, ps) \<Rightarrow> normalizeAndScore h ps metrics_used)"

section \<open>The assignment of one trial\<close>

text \<open>
  \<^verbatim>\<open>Array.from({ length: numTeams }, ...)\<close> takes the length through the
  language's \<^verbatim>\<open>ToLength\<close>: nothing for a number that is not positive, the integer
  part otherwise, at most \<open>2^53 - 1\<close>. The engine's limits on how long an array can
  really be are not modelled.
\<close>

definition to_length :: "real \<Rightarrow> nat" where
  "to_length x = (if x \<le> 0 then 0 else min (nat \<lfloor>x\<rfloor>) (2 ^ 53 - 1))"

definition new_teams :: "real \<Rightarrow> Team list" where
  "new_teams numTeams =
     map (\<lambda>i. \<lparr>team_id = i + 1, players = [], total_engagement_score = 0\<rparr>)
       [0..<to_length numTeams]"

text \<open>
  The callback of \<^verbatim>\<open>shuffledPlayers.forEach\<close>. \<^verbatim>\<open>teams.sort\<close> with the
  comparator \<^verbatim>\<open>a.total_engagement_score - b.total_engagement_score\<close> is a stable
  sort on that key, which is what \<^const>\<open>sort_key\<close> is; \<^verbatim>\<open>teams[0]\<close> of an empty
  array is \<^verbatim>\<open>undefined\<close> and the guard skips the body.
\<close>

definition assign_player :: "heap \<Rightarrow> Team list \<Rightarrow> ref \<Rightarrow> Team list" where
  "assign_player h teams player =
     (case sort_key total_engagement_score teams of
        [] \<Rightarrow> []
      | targetTeam # rest \<Rightarrow>
          targetTeam\<lparr>players := players targetTeam @ [player],
                     total_engagement_score :=
                       total_engagement_score targetTeam + engagement_score (h player)\<rparr> # rest)"

definition assign_players :: "heap \<Rightarrow> Team list \<Rightarrow> ref list \<Rightarrow> Team list" where
  "assign_players h teams shuffledPlayers = foldl (assign_player h) teams shuffledPlayers"

text \<open>\<^verbatim>\<open>t.total_engagement_score / (t.players.length || 1)\<close>.\<close>

definition team_average :: "Team \<Rightarrow> real" where
  "team_average t =
     total_engagement_score t /
       real (if length (players t) = 0 then 1 else length (players t))"

definition calculateStandardDeviation :: "real list \<Rightarrow> real" where
  "calculateStandardDeviation numbers =
     (if length numbers = 0 then 0
      else
        let mean = foldl (\<lambda>a b. a + b) 0 numbers / real (length numbers);
            variance = foldl (\<lambda>a b. a + (b - mean) ^ 2) 0 numbers / real (length numbers)
        in sqrt variance)"

section \<open>The trials of \<^verbatim>\<open>main\<close>\<close>

text \<open>The decimal digits of a loop index, as the template literal prints them.\<close>

fun string_of_nat :: "nat \<Rightarrow> string" where
  "string_of_nat n =
     (if n < 10 then [char_of (48 + n)]
      else string_of_nat (n div 10) @ [char_of (48 + n mod 10)])"

declare string_of_nat.simps [simp del]

definition trial_seed :: "'g library \<Rightarrow> real \<Rightarrow> nat \<Rightarrow> string" where
  "trial_seed lib seed i = number_to_string lib seed @ ''-'' @ string_of_nat i"

text \<open>
  One pass of the loop body up to the teams: seed the generator, shuffle a copy of the
  players, build the teams, assign.
\<close>

definition run_trial :: "'g library \<Rightarrow> real \<Rightarrow> real \<Rightarrow> heap \<Rightarrow> ref list \<Rightarrow> nat \<Rightarrow> Team list" where
  "run_trial lib seed numTeams h ps i =
     (let g = seedrandom lib (trial_seed lib seed i);
          shuffledPlayers = fst (shuffle (rng lib) ps g)
      in assign_players h (new_teams numTeams) shuffledPlayers)"

definition trial_std_dev :: "'g library \<Rightarrow> real \<Rightarrow> real \<Rightarrow> heap \<Rightarrow> ref list \<Rightarrow> nat \<Rightarrow> real" where
  "trial_std_dev lib seed numTeams h ps i =
     calculateStandardDeviation (map team_average (run_trial lib seed numTeams h ps i))"

text \<open>
  The three variables the loop updates. \<open>lowestStdDev = None\<close> stands for the start
  value \<^verbatim>\<open>Infinity\<close>, below which every standard deviation lies.
\<close>

record selection =
  bestAssignment :: "Team list"
  lowestStdDev :: "real option"
  bestTrialIndex :: int

definition initial_selection :: selection where
  "initial_selection = \<lparr>bestAssignment = [], lowestStdDev = None, bestTrialIndex = - 1\<rparr>"

fun below_lowest :: "real \<Rightarrow> real option \<Rightarrow> bool" where
  "below_lowest stdDev None = True"
| "below_lowest stdDev (Some lowest) = (stdDev < lowest)"

definition trial_step ::
  "'g library \<Rightarrow> real \<Rightarrow> real \<Rightarrow> heap \<Rightarrow> ref list \<Rightarrow> selection \<Rightarrow> nat \<Rightarrow> selection" where
  "trial_step lib seed numTeams h ps s i =
     (let teams = run_trial lib seed numTeams h ps i;
          stdDev = calculateStandardDeviation (map team_average teams)
      in if below_lowest stdDev (lowestStdDev s)
         then \<lparr>bestAssignment = teams, lowestStdDev = Some stdDev, bestTrialIndex = int i + 1\<rparr>
         else s)"

definition trials :: nat where
  "trials = 10"

definition run_trials :: "'g library \<Rightarrow> real \<Rightarrow> real \<Rightarrow> heap \<Rightarrow> ref list \<Rightarrow> selection" where
  "run_trials lib seed numTeams h ps =
     foldl (trial_step lib seed numTeams h ps) initial_selection [0..<trials]"

section \<open>\<^verbatim>\<open>main\<close>\<close>

text \<open>
  The command line as \<^verbatim>\<open>yargs\<close> hands it over. \<^verbatim>\<open>teams\<close> and \<^verbatim>\<open>seed\<close>
  are declared with \<^verbatim>\<open>demandOption: true\<close>: when one is absent \<^verbatim>\<open>yargs\<close>
  reports it and the run ends there. That is the only failure of the part of the
  program modelled here; reading and parsing the file happen before \<open>records\<close> exists.
\<close>

record arguments =
  teams :: "real option"
  seed :: "real option"
  debug :: bool

datatype error = MissingRequiredArgument

text \<open>
  What a run prints, as data: one pair per \<^verbatim>\<open><player_id> -> new_team_<id>\<close> line
  and one triple (id, size, average) per team of the summary, in print order. The
  \<^verbatim>\<open>--debug\<close> lines only repeat values computed anyway and are left out.
\<close>

record report =
  final_assignment :: "Team list"
  best_trial :: int
  assignment_lines :: "(string \<times> nat) list"
  team_summary :: "(nat \<times> nat \<times> real) list"

definition print_report :: "heap \<Rightarrow> selection \<Rightarrow> report" where
  "print_report h s =
     (let sorted = sort_key team_id (bestAssignment s)
      in \<lparr>final_assignment = sorted,
          best_trial = bestTrialIndex s,
          assignment_lines =
            concat (map (\<lambda>t. map (\<lambda>p. (player_id (h p), team_id t)) (players t)) sorted),
          team_summary =
            map (\<lambda>t. (team_id t, length (players t), team_average t)) sorted\<rparr>)"

definition main :: "'g library \<Rightarrow> arguments \<Rightarrow> heap \<Rightarrow> CsvRecord list \<Rightarrow> error + report" where
  "main lib argv h0 records =
     (case (teams argv, seed argv) of
        (Some numTeams, Some seed_value) \<Rightarrow>
          (case readAndProcessPlayerData h0 records of
             (h, ps) \<Rightarrow> Inr (print_report h (run_trials lib seed_value numTeams h ps)))
      | _ \<Rightarrow> Inl MissingRequiredArgument)"

section \<open>The notions of the specification\<close>

text \<open>
  These three groups follow the wording of the specification, not the code; the
  theorems below compare the code with them.

  The dispersion: the population standard deviation, the root of the mean squared
  distance from the mean, dividing by the number of values. It is meant for a non-empty
  list.
\<close>

definition mean_value :: "real list \<Rightarrow> real" where
  "mean_value xs = sum_list xs / real (length xs)"

definition population_standard_deviation :: "real list \<Rightarrow> real" where
  "population_standard_deviation xs =
     sqrt (sum_list (map (\<lambda>x. (x - mean_value xs) ^ 2) xs) / real (length xs))"

text \<open>
  The score: per metric the least and the greatest value over all players of the
  collection, the value rescaled between them (\<open>0\<close> when they coincide), and the mean
  of the three rescaled values.
\<close>

definition metric_min :: "heap \<Rightarrow> ref list \<Rightarrow> metric \<Rightarrow> real" where
  "metric_min h ps m = Min ((\<lambda>q. get_metric (h q) m) ` set ps)"

definition metric_max :: "heap \<Rightarrow> ref list \<Rightarrow> metric \<Rightarrow> real" where
  "metric_max h ps m = Max ((\<lambda>q. get_metric (h q) m) ` set ps)"

definition normalized_value :: "heap \<Rightarrow> ref list \<Rightarrow> metric \<Rightarrow> ref \<Rightarrow> real" where
  "normalized_value h ps m p =
     (if metric_max h ps m = metric_min h ps m then 0
      else (get_metric (h p) m - metric_min h ps m) / (metric_max h ps m - metric_min h ps m))"

definition mean_normalized_score :: "heap \<Rightarrow> ref list \<Rightarrow> ref \<Rightarrow> real" where
  "mean_normalized_score h ps p =
     (normalized_value h ps Historical_event_engagements p
      + normalized_value h ps Historical_messages_sent p
      + normalized_value h ps Days_active_last_30 p) / 3"

text \<open>
  The shuffle: for index \<open>i\<close> from the last position down to \<open>1\<close>, draw an integer
  \<open>j\<close> in \<open>[0, i]\<close> from the generator and swap the elements at \<open>i\<close> and \<open>j\<close>. The
  integer is the generator's number scaled to the \<open>i + 1\<close> possible values.
\<close>

definition draw_index :: "unit_interval \<Rightarrow> nat \<Rightarrow> nat" where
  "draw_index r i = nat \<lfloor>Rep_unit_interval r * real (i + 1)\<rfloor>"

fun swap_down :: "('g \<Rightarrow> unit_interval \<times> 'g) \<Rightarrow> nat \<Rightarrow> 'a list \<Rightarrow> 'g \<Rightarrow> 'a list" where
  "swap_down next_number 0 arr g = arr"
| "swap_down next_number (Suc k) arr g =
     (case next_number g of (r, g') \<Rightarrow>
        let i = Suc k; j = draw_index r i
        in swap_down next_number k (arr[i := arr ! j, j := arr ! i]) g')"

definition standard_shuffle :: "('g \<Rightarrow> unit_interval \<times> 'g) \<Rightarrow> 'a list \<Rightarrow> 'g \<Rightarrow> 'a list" where
  "standard_shuffle next_number arr g = swap_down next_number (length arr - 1) arr g"

section \<open>Example data\<close>

text \<open>
  Concrete input to run the definitions on. The example generator takes its state from
  the last character of the seed string and yields \<open>1/2\<close> in an even state and \<open>0\<close>
  in an odd one, so that consecutive trials shuffle differently. \<open>example_records\<close>
  gives the scores \<open>1/3\<close> and \<open>2/3\<close>; in \<open>example_low_records\<close> the first player
  has the least value of every metric and therefore the score \<open>0\<close>.
\<close>

definition blank_player :: Player where
  "blank_player = \<lparr>player_id = [], historical_event_engagements = 0,
     historical_messages_sent = 0, days_active_last_30 = 0, engagement_score = 0\<rparr>"

definition example_library :: "nat library" where
  "example_library =
     \<lparr>seedrandom = (\<lambda>s. if s = [] then 0 else of_char (last s)),
      rng = (\<lambda>g. (if even g then Abs_unit_interval (1 / 2) else Abs_unit_interval 0, Suc g)),
      number_to_string = (\<lambda>x. string_of_nat (nat \<lfloor>x\<rfloor>))\<rparr>"

definition example_records :: "CsvRecord list" where
  "example_records =
     [\<lparr>rec_player_id = ''a'', rec_historical_event_engagements = 1,
       rec_historical_messages_sent = 2, rec_days_active_last_30 = 1\<rparr>,
      \<lparr>rec_player_id = ''b'', rec_historical_event_engagements = 2,
       rec_historical_messages_sent = 1, rec_days_active_last_30 = 2\<rparr>]"

definition example_raw_heap :: heap where
  "example_raw_heap = fst (allocate_players (\<lambda>_. blank_player) 0 example_records)"

definition example_scored_heap :: heap where
  "example_scored_heap = fst (readAndProcessPlayerData (\<lambda>_. blank_player) example_records)"

definition example_low_records :: "CsvRecord list" where
  "example_low_records =
     [\<lparr>rec_player_id = ''a'', rec_historical_event_engagements = 1,
       rec_historical_messages_sent = 1, rec_days_active_last_30 = 1\<rparr>,
      \<lparr>rec_player_id = ''b'', rec_historical_event_engagements = 2,
       rec_historical_messages_sent = 2, rec_days_active_last_30 = 2\<rparr>]"

definition example_low_heap :: heap where
  "example_low_heap = fst (readAndProcessPlayerData (\<lambda>_. blank_player) example_low_records)"

section \<open>The example store\<close>

lemma example_scored_heap_values:
  "example_scored_heap =
     (\<lambda>_. blank_player)
       (0 := \<lparr>player_id = ''a'', historical_event_engagements = 1,
              historical_messages_sent = 2, days_active_last_30 = 1, engagement_score = 1 / 3\<rparr>,
        1 := \<lparr>player_id = ''b'', historical_event_engagements = 2,
              historical_messages_sent = 1, days_active_last_30 = 2, engagement_score = 2 / 3\<rparr>)"
  by (simp add: example_scored_heap_def readAndProcessPlayerData_def example_records_def
      new_player_def normalizeAndScore_def metrics_used_def Let_def fun_upd_twist)

section \<open>Properties of the shuffle and of the stable sort\<close>

lemma random_index_less: "0 < n \<Longrightarrow> random_index r n < n"
proof -
  assume n: "0 < n"
  have r: "0 \<le> Rep_unit_interval r" "Rep_unit_interval r < 1"
    using Rep_unit_interval [of r] by simp_all
  have "Rep_unit_interval r * real n < real n"
    using r n by simp
  then have "\<lfloor>Rep_unit_interval r * real n\<rfloor> < int n"
    by (simp add: floor_less_iff)
  moreover have "0 \<le> \<lfloor>Rep_unit_interval r * real n\<rfloor>"
    using r by simp
  ultimately show ?thesis
    unfolding random_index_def by linarith
qed

lemma shuffle_loop_length:
  "length (fst (shuffle_loop f n arr g)) = length arr"
  by (induction n arbitrary: arr g) (simp_all add: Let_def split: prod.splits)

lemma shuffle_loop_mset:
  "n \<le> length arr \<Longrightarrow> mset (fst (shuffle_loop f n arr g)) = mset arr"
proof (induction n arbitrary: arr g)
  case 0
  then show ?case by simp
next
  case (Suc n)
  obtain r g' where step: "f g = (r, g')" by (cases "f g")
  let ?j = "random_index r (Suc n)"
  have j: "?j < length arr" using random_index_less [of "Suc n" r] Suc.prems by simp
  have n: "n < length arr" using Suc.prems by simp
  have "mset (arr[n := arr ! ?j, ?j := arr ! n]) = mset arr"
    using mset_swap [OF j n] .
  moreover have "n \<le> length (arr[n := arr ! ?j, ?j := arr ! n])" using n by simp
  ultimately show ?case using Suc.IH step by (simp add: Let_def)
qed

lemma sort_key_first_min:
  fixes f :: "'a \<Rightarrow> 'b::linorder"
  shows "xs \<noteq> [] \<Longrightarrow> \<exists>i<length xs. (\<forall>y\<in>set xs. f (xs ! i) \<le> f y) \<and> (\<forall>j<i. f (xs ! i) < f (xs ! j)) \<and>
     sort_key f xs = xs ! i # sort_key f (take i xs @ drop (Suc i) xs)"
proof (induction xs)
  case Nil
  then show ?case by simp
next
  case (Cons x xs)
  show ?case
  proof (cases "xs = []")
    case True
    then show ?thesis by (intro exI [of _ 0]) simp
  next
    case False
    with Cons.IH obtain i where i: "i < length xs" "\<forall>y\<in>set xs. f (xs ! i) \<le> f y"
      "\<forall>j<i. f (xs ! i) < f (xs ! j)"
      "sort_key f xs = xs ! i # sort_key f (take i xs @ drop (Suc i) xs)" by blast
    show ?thesis
    proof (cases "f x \<le> f (xs ! i)")
      case True
      have "sort_key f (x # xs) = x # sort_key f xs"
        using True i(4) by simp
      moreover have "\<forall>y\<in>set (x # xs). f x \<le> f y" using True i(2) by auto
      ultimately show ?thesis by (intro exI [of _ 0]) simp
    next
      case False
      have "sort_key f (x # xs) = xs ! i # sort_key f (x # take i xs @ drop (Suc i) xs)"
        using False i(4) by simp
      moreover have "\<forall>y\<in>set (x # xs). f (xs ! i) \<le> f y" using False i(2) by auto
      moreover have "\<forall>j<Suc i. f ((x # xs) ! Suc i) < f ((x # xs) ! j)"
        using False i(3) by (auto simp: less_Suc_eq_0_disj)
      ultimately show ?thesis using i(1) by (intro exI [of _ "Suc i"]) simp
    qed
  qed
qed

section \<open>The assignment step\<close>

lemma to_length_pos: "1 \<le> x \<Longrightarrow> 1 \<le> to_length x"
  unfolding to_length_def by (auto simp: le_nat_iff le_floor_iff)

lemma length_new_teams: "length (new_teams numTeams) = to_length numTeams"
  by (simp add: new_teams_def)

lemma length_assign_player: "length (assign_player h ts p) = length ts"
proof -
  have "length (sort_key total_engagement_score ts) = length ts" by simp
  then show ?thesis
    unfolding assign_player_def by (cases "sort_key total_engagement_score ts") auto
qed

lemma length_assign_players: "length (assign_players h ts ps) = length ts"
  unfolding assign_players_def
  by (induction ps arbitrary: ts) (simp_all add: length_assign_player)

lemma assign_players_snoc:
  "assign_players h ts (ps @ [p]) = assign_player h (assign_players h ts ps) p"
  by (simp add: assign_players_def)

lemma assign_player_first_min:
  assumes "ts \<noteq> []"
  shows "\<exists>i<length ts.
     (\<forall>t\<in>set ts. total_engagement_score (ts ! i) \<le> total_engagement_score t) \<and>
     (\<forall>j<i. total_engagement_score (ts ! i) < total_engagement_score (ts ! j)) \<and>
     assign_player h ts p =
       (ts ! i)\<lparr>players := players (ts ! i) @ [p],
                total_engagement_score :=
                  total_engagement_score (ts ! i) + engagement_score (h p)\<rparr>
       # sort_key total_engagement_score (take i ts @ drop (Suc i) ts)"
proof -
  from sort_key_first_min [OF assms, of total_engagement_score]
  obtain i where i: "i < length ts"
    "\<forall>t\<in>set ts. total_engagement_score (ts ! i) \<le> total_engagement_score t"
    "\<forall>j<i. total_engagement_score (ts ! i) < total_engagement_score (ts ! j)"
    "sort_key total_engagement_score ts =
       ts ! i # sort_key total_engagement_score (take i ts @ drop (Suc i) ts)"
    by blast
  have "assign_player h ts p =
       (ts ! i)\<lparr>players := players (ts ! i) @ [p],
                total_engagement_score :=
                  total_engagement_score (ts ! i) + engagement_score (h p)\<rparr>
       # sort_key total_engagement_score (take i ts @ drop (Suc i) ts)"
    unfolding assign_player_def by (simp add: i(4))
  with i(1,2,3) show ?thesis by blast
qed

lemma example_first_step:
  "assign_players example_scored_heap (new_teams 2) [0] =
     [\<lparr>team_id = 1, players = [0], total_engagement_score = 1 / 3\<rparr>,
      \<lparr>team_id = 2, players = [], total_engagement_score = 0\<rparr>]"
proof -
  have l: "to_length 2 = Suc (Suc 0)" by (simp add: to_length_def)
  show ?thesis
    by (simp add: assign_players_def assign_player_def new_teams_def l
      example_scored_heap_values)
qed

text \<open>
  C1. Every assignment step with at least one team: let \<open>before\<close> be the team array
  as the previous iterations left it (the teams after the first \<open>k\<close> shuffled players).
  The step for player \<open>k\<close> picks a position \<open>i\<close> of \<open>before\<close> whose team has the
  least \<open>total_engagement_score\<close> of all teams, and the first such position in that
  arrangement; the player is appended to that team, its total grows by the player's
  \<open>engagement_score\<close>, and the array the next step sees is that team followed by the
  others, stably sorted.
\<close>

theorem assigner_step_greedy:
  assumes "1 \<le> numTeams" and "k < length shuffledPlayers"
  shows "\<exists>i<length (assign_players h (new_teams numTeams) (take k shuffledPlayers)).
     (\<forall>t\<in>set (assign_players h (new_teams numTeams) (take k shuffledPlayers)).
        total_engagement_score (assign_players h (new_teams numTeams) (take k shuffledPlayers) ! i)
          \<le> total_engagement_score t) \<and>
     (\<forall>j<i.
        total_engagement_score (assign_players h (new_teams numTeams) (take k shuffledPlayers) ! i)
          < total_engagement_score (assign_players h (new_teams numTeams) (take k shuffledPlayers) ! j)) \<and>
     assign_players h (new_teams numTeams) (take (Suc k) shuffledPlayers) =
       (assign_players h (new_teams numTeams) (take k shuffledPlayers) ! i)
         \<lparr>players :=
            players (assign_players h (new_teams numTeams) (take k shuffledPlayers) ! i)
              @ [shuffledPlayers ! k],
          total_engagement_score :=
            total_engagement_score (assign_players h (new_teams numTeams) (take k shuffledPlayers) ! i)
              + engagement_score (h (shuffledPlayers ! k))\<rparr>
       # sort_key total_engagement_score
           (take i (assign_players h (new_teams numTeams) (take k shuffledPlayers))
            @ drop (Suc i) (assign_players h (new_teams numTeams) (take k shuffledPlayers)))"
proof -
  let ?before = "assign_players h (new_teams numTeams) (take k shuffledPlayers)"
  have "length ?before = to_length numTeams"
    by (simp add: length_assign_players length_new_teams)
  with to_length_pos [OF assms(1)] have ne: "?before \<noteq> []" by auto
  have "take (Suc k) shuffledPlayers = take k shuffledPlayers @ [shuffledPlayers ! k]"
    using assms(2) by (simp add: take_Suc_conv_app_nth)
  then have "assign_players h (new_teams numTeams) (take (Suc k) shuffledPlayers) =
      assign_player h ?before (shuffledPlayers ! k)"
    by (simp add: assign_players_snoc)
  with assign_player_first_min [OF ne, of h "shuffledPlayers ! k"] show ?thesis by simp
qed

theorem assigner_step_greedy_witness:
  "(1::real) \<le> 2 \<and> (1::nat) < length [0::nat, 1] \<and>
   assign_players example_scored_heap (new_teams 2) (take (Suc 1) [0, 1]) =
     [\<lparr>team_id = 2, players = [1], total_engagement_score = 2 / 3\<rparr>,
      \<lparr>team_id = 1, players = [0], total_engagement_score = 1 / 3\<rparr>]"
proof -
  let ?before = "assign_players example_scored_heap (new_teams 2) (take 1 [0, 1])"
  have h1: "(1::real) \<le> 2" and h2: "(1::nat) < length [0::nat, 1]" by simp_all
  from assigner_step_greedy [OF h1 h2, of example_scored_heap]
  obtain i where i: "i < length ?before"
    "\<forall>t\<in>set ?before. total_engagement_score (?before ! i) \<le> total_engagement_score t"
    "assign_players example_scored_heap (new_teams 2) (take (Suc 1) [0, 1]) =
       (?before ! i)
         \<lparr>players := players (?before ! i) @ [[0, 1] ! 1],
          total_engagement_score :=
            total_engagement_score (?before ! i)
              + engagement_score (example_scored_heap ([0, 1] ! 1))\<rparr>
       # sort_key total_engagement_score (take i ?before @ drop (Suc i) ?before)"
    by blast
  have "i = 1"
  proof (rule ccontr)
    assume "i \<noteq> 1"
    with i(1) have "i = 0" using example_first_step by simp
    with i(2) show False using example_first_step by simp
  qed
  with i(3) have "assign_players example_scored_heap (new_teams 2) (take (Suc 1) [0, 1]) =
     [\<lparr>team_id = 2, players = [1], total_engagement_score = 2 / 3\<rparr>,
      \<lparr>team_id = 1, players = [0], total_engagement_score = 1 / 3\<rparr>]"
    using example_first_step by (simp add: example_scored_heap_values)
  with h1 h2 show ?thesis by blast
qed

section \<open>Runs without teams or without players\<close>

lemma foldl_unchanged: "(\<And>i. i \<in> set xs \<Longrightarrow> f s i = s) \<Longrightarrow> foldl f s xs = s"
  by (induction xs) simp_all

lemma run_trials_all_equal:
  assumes "\<And>i. run_trial lib sd numTeams h ps i = ts"
  shows "run_trials lib sd numTeams h ps =
     \<lparr>bestAssignment = ts,
      lowestStdDev = Some (calculateStandardDeviation (map team_average ts)),
      bestTrialIndex = 1\<rparr>"
proof -
  let ?s = "\<lparr>bestAssignment = ts,
      lowestStdDev = Some (calculateStandardDeviation (map team_average ts)),
      bestTrialIndex = 1\<rparr>"
  have first: "trial_step lib sd numTeams h ps initial_selection 0 = ?s"
    by (simp add: trial_step_def initial_selection_def assms)
  have later: "trial_step lib sd numTeams h ps ?s i = ?s" for i
    by (simp add: trial_step_def assms)
  have "[0..<trials] = 0 # [1..<trials]"
    by (simp add: trials_def upt_conv_Cons)
  then have "run_trials lib sd numTeams h ps =
      foldl (trial_step lib sd numTeams h ps) ?s [1..<trials]"
    by (simp add: run_trials_def first)
  also have "\<dots> = ?s"
    by (rule foldl_unchanged) (rule later)
  finally show ?thesis .
qed

lemma to_length_nonpos: "x \<le> 0 \<Longrightarrow> to_length x = 0"
  by (simp add: to_length_def)

lemma new_teams_nonpos: "x \<le> 0 \<Longrightarrow> new_teams x = []"
  by (simp add: new_teams_def to_length_nonpos)

lemma assign_player_Nil: "assign_player h [] p = []"
  by (simp add: assign_player_def)

lemma assign_players_Nil: "assign_players h [] ps = []"
  unfolding assign_players_def by (induction ps) (simp_all add: assign_player_Nil)

lemma run_trial_nonpos: "x \<le> 0 \<Longrightarrow> run_trial lib sd x h ps i = []"
  by (simp add: run_trial_def new_teams_nonpos assign_players_Nil)

lemma print_report_no_teams:
  "print_report h \<lparr>bestAssignment = [], lowestStdDev = l, bestTrialIndex = k\<rparr> =
     \<lparr>final_assignment = [], best_trial = k, assignment_lines = [], team_summary = []\<rparr>"
  by (simp add: print_report_def)

lemma main_nonpos:
  assumes "x \<le> 0"
  shows "main lib \<lparr>teams = Some x, seed = Some sd, debug = d\<rparr> h0 records =
     Inr \<lparr>final_assignment = [], best_trial = 1, assignment_lines = [], team_summary = []\<rparr>"
proof -
  obtain h ps where rp: "readAndProcessPlayerData h0 records = (h, ps)"
    by (cases "readAndProcessPlayerData h0 records")
  have "run_trials lib sd x h ps =
     \<lparr>bestAssignment = [],
      lowestStdDev = Some (calculateStandardDeviation (map team_average [])),
      bestTrialIndex = 1\<rparr>"
    by (rule run_trials_all_equal) (rule run_trial_nonpos [OF assms])
  then show ?thesis
    by (simp add: main_def rp print_report_no_teams)
qed

text \<open>
  C10. With a team count of \<open>0\<close> nothing in the trial pipeline fails: the team array
  is empty, the guarded assignment step leaves the empty array as it is (the player is
  not stored anywhere), every trial ends with no teams, the standard deviation of the
  empty list of averages is \<open>0\<close>, and the run returns a report without teams and
  without assignment lines.
\<close>

theorem zero_teams_pipeline_total:
  "new_teams 0 = [] \<and>
   assign_player h [] p = [] \<and>
   run_trial lib sd 0 h ps i = [] \<and>
   calculateStandardDeviation [] = 0 \<and>
   trial_std_dev lib sd 0 h ps i = 0 \<and>
   main lib \<lparr>teams = Some 0, seed = Some sd, debug = d\<rparr> h0 records =
     Inr \<lparr>final_assignment = [], best_trial = 1, assignment_lines = [], team_summary = []\<rparr>"
proof -
  have z: "(0::real) \<le> 0" by simp
  have "calculateStandardDeviation [] = 0"
    by (simp add: calculateStandardDeviation_def)
  moreover have "trial_std_dev lib sd 0 h ps i = 0"
    by (simp add: trial_std_dev_def run_trial_nonpos [OF z] calculateStandardDeviation_def)
  ultimately show ?thesis
    by (simp add: assign_player_Nil new_teams_nonpos [OF z] run_trial_nonpos [OF z]
        main_nonpos [OF z])
qed

theorem zero_teams_pipeline_total_witness:
  "run_trial example_library 42 0 (\<lambda>_. blank_player) [0, 1] 3 = [] \<and>
   trial_std_dev example_library 42 0 (\<lambda>_. blank_player) [0, 1] 3 = 0 \<and>
   main example_library \<lparr>teams = Some 0, seed = Some 42, debug = False\<rparr>
       (\<lambda>_. blank_player) example_records =
     Inr \<lparr>final_assignment = [], best_trial = 1, assignment_lines = [], team_summary = []\<rparr>"
  using zero_teams_pipeline_total
    [of "\<lambda>_. blank_player" 0 example_library 42 "[0, 1]" 3 False "\<lambda>_. blank_player" example_records]
  by simp

text \<open>
  C7, as the program behaves: a team count that is zero or negative raises no error.
  The run completes and its report has no teams, no assignment lines and no summary;
  the first trial is reported as the best.
\<close>

theorem nonpositive_team_count_no_error:
  assumes "numTeams \<le> 0"
  shows "main lib \<lparr>teams = Some numTeams, seed = Some sd, debug = d\<rparr> h0 records =
     Inr \<lparr>final_assignment = [], best_trial = 1, assignment_lines = [], team_summary = []\<rparr>"
  using assms by (rule main_nonpos)

theorem nonpositive_team_count_no_error_witness:
  "(- 3 :: real) \<le> 0 \<and>
   main example_library \<lparr>teams = Some (- 3), seed = Some 42, debug = True\<rparr>
       (\<lambda>_. blank_player) example_records =
     Inr \<lparr>final_assignment = [], best_trial = 1, assignment_lines = [], team_summary = []\<rparr>"
proof -
  have h: "(- 3 :: real) \<le> 0" by simp
  from nonpositive_team_count_no_error [OF h] h show ?thesis by blast
qed

text \<open>
  C7 as stated fails: with \<^verbatim>\<open>--teams -1\<close> the run ends normally with a report,
  not with an error.
\<close>

theorem nonpositive_team_count_counterexample:
  "main example_library \<lparr>teams = Some (- 1), seed = Some 42, debug = False\<rparr>
       (\<lambda>_. blank_player) example_records
     = Inr \<lparr>final_assignment = [], best_trial = 1, assignment_lines = [], team_summary = []\<rparr>"
  by (simp add: main_nonpos)

lemma shuffle_Nil: "shuffle f [] g = ([], g)"
  by (simp add: shuffle_def)

lemma run_trial_no_players: "run_trial lib sd numTeams h [] i = new_teams numTeams"
  by (simp add: run_trial_def shuffle_Nil assign_players_def)

lemma sort_new_teams: "sort_key team_id (new_teams numTeams) = new_teams numTeams"
proof -
  have "map team_id (new_teams numTeams) = map Suc [0..<to_length numTeams]"
    by (simp add: new_teams_def)
  moreover have "sorted (map Suc [0..<to_length numTeams])"
    by (simp add: sorted_map strict_sorted_iff sorted_wrt_map)
  ultimately show ?thesis by (simp add: sort_key_id_if_sorted)
qed

lemma read_no_records: "readAndProcessPlayerData h0 [] = (h0, [])"
  by (simp add: readAndProcessPlayerData_def normalizeAndScore_def)

text \<open>
  C8, as the program behaves: with no player parsed nothing fails. The scoring returns
  the empty array and leaves the store alone, every trial ends with the fresh teams, and
  the run reports the first trial: \<open>numTeams\<close> teams without players, no assignment
  line, and a summary of size \<open>0\<close> and average \<open>0\<close> per team.
\<close>

theorem empty_input_no_error:
  "readAndProcessPlayerData h0 [] = (h0, []) \<and>
   run_trial lib sd numTeams h0 [] i = new_teams numTeams \<and>
   main lib \<lparr>teams = Some numTeams, seed = Some sd, debug = d\<rparr> h0 [] =
     Inr \<lparr>final_assignment = new_teams numTeams,
          best_trial = 1,
          assignment_lines = [],
          team_summary = map (\<lambda>i. (i + 1, 0, 0)) [0..<to_length numTeams]\<rparr>"
proof -
  have "run_trials lib sd numTeams h0 [] =
     \<lparr>bestAssignment = new_teams numTeams,
      lowestStdDev = Some (calculateStandardDeviation (map team_average (new_teams numTeams))),
      bestTrialIndex = 1\<rparr>"
    by (rule run_trials_all_equal) (rule run_trial_no_players)
  moreover have "concat (map (\<lambda>t. map (\<lambda>p. (player_id (h0 p), team_id t)) (players t))
      (new_teams numTeams)) = []"
    by (simp add: new_teams_def)
  moreover have "map (\<lambda>t. (team_id t, length (players t), team_average t)) (new_teams numTeams) =
      map (\<lambda>i. (i + 1, 0, 0)) [0..<to_length numTeams]"
    by (simp add: new_teams_def team_average_def)
  ultimately have "main lib \<lparr>teams = Some numTeams, seed = Some sd, debug = d\<rparr> h0 [] =
     Inr \<lparr>final_assignment = new_teams numTeams,
          best_trial = 1,
          assignment_lines = [],
          team_summary = map (\<lambda>i. (i + 1, 0, 0)) [0..<to_length numTeams]\<rparr>"
    by (simp add: main_def read_no_records print_report_def sort_new_teams Let_def)
  then show ?thesis
    by (simp add: read_no_records run_trial_no_players)
qed

lemma to_length_2: "to_length 2 = Suc (Suc 0)"
  by (simp add: to_length_def)

theorem empty_input_no_error_witness:
  "main example_library \<lparr>teams = Some 2, seed = Some 7, debug = False\<rparr> (\<lambda>_. blank_player) [] =
     Inr \<lparr>final_assignment =
            [\<lparr>team_id = 1, players = [], total_engagement_score = 0\<rparr>,
             \<lparr>team_id = 2, players = [], total_engagement_score = 0\<rparr>],
          best_trial = 1,
          assignment_lines = [],
          team_summary = [(1, 0, 0), (2, 0, 0)]\<rparr>"
  using empty_input_no_error [of "\<lambda>_. blank_player" example_library 7 2 0 False]
  by (simp add: new_teams_def to_length_2)

text \<open>
  C8 as stated fails: an empty table and \<^verbatim>\<open>--teams 1\<close> give a report with one
  empty team, not an error.
\<close>

theorem empty_input_counterexample:
  "main example_library \<lparr>teams = Some 1, seed = Some 42, debug = False\<rparr> (\<lambda>_. blank_player) [] =
     Inr \<lparr>final_assignment = [\<lparr>team_id = 1, players = [], total_engagement_score = 0\<rparr>],
          best_trial = 1,
          assignment_lines = [],
          team_summary = [(1, 0, 0)]\<rparr>"
proof -
  have "run_trials example_library 42 1 (\<lambda>_. blank_player) [] =
     \<lparr>bestAssignment = new_teams 1,
      lowestStdDev = Some (calculateStandardDeviation (map team_average (new_teams 1))),
      bestTrialIndex = 1\<rparr>"
    by (rule run_trials_all_equal) (rule run_trial_no_players)
  moreover have "new_teams 1 = [\<lparr>team_id = 1, players = [], total_engagement_score = 0\<rparr>]"
    by (simp add: new_teams_def to_length_def)
  ultimately show ?thesis
    by (simp add: main_def read_no_records print_report_def team_average_def Let_def)
qed

section \<open>The selection among the trials\<close>

lemma foldl_plus_sum_list:
  fixes a :: real
  shows "foldl (\<lambda>a b. a + f b) a xs = a + sum_list (map f xs)"
  by (induction xs arbitrary: a) simp_all

lemma calculateStandardDeviation_population:
  "xs \<noteq> [] \<Longrightarrow> calculateStandardDeviation xs = population_standard_deviation xs"
  using foldl_plus_sum_list [of "\<lambda>b. b" 0 xs]
    foldl_plus_sum_list [of "\<lambda>b. (b - sum_list xs / real (length xs)) ^ 2" 0 xs]
  by (simp add: calculateStandardDeviation_def population_standard_deviation_def mean_value_def)

lemma calculateStandardDeviation_mset:
  assumes "mset xs = mset ys"
  shows "calculateStandardDeviation xs = calculateStandardDeviation ys"
proof -
  have len: "length xs = length ys"
    using assms by (rule mset_eq_length)
  have s: "sum_list (map f xs) = sum_list (map f ys)" for f :: "real \<Rightarrow> real"
  proof -
    have "mset (map f xs) = mset (map f ys)" using assms by (metis mset_map)
    then show ?thesis by (metis sum_mset_sum_list)
  qed
  have "foldl (\<lambda>a b. a + f b) 0 xs = foldl (\<lambda>a b. a + f b) 0 ys" for f :: "real \<Rightarrow> real"
    by (simp add: foldl_plus_sum_list s)
  from this [of "\<lambda>b. b"] this [of "\<lambda>b. (b - foldl (\<lambda>a b. a + b) 0 ys / real (length ys)) ^ 2"]
  show ?thesis
    by (simp add: calculateStandardDeviation_def len)
qed

lemma trial_step_unfold:
  "trial_step lib sd numTeams h ps s i =
     (if below_lowest (trial_std_dev lib sd numTeams h ps i) (lowestStdDev s)
      then \<lparr>bestAssignment = run_trial lib sd numTeams h ps i,
            lowestStdDev = Some (trial_std_dev lib sd numTeams h ps i),
            bestTrialIndex = int i + 1\<rparr>
      else s)"
  by (simp add: trial_step_def trial_std_dev_def Let_def)

lemma trials_keep_first_minimum:
  "\<exists>k<Suc n.
     foldl (trial_step lib sd numTeams h ps) initial_selection [0..<Suc n] =
       \<lparr>bestAssignment = run_trial lib sd numTeams h ps k,
        lowestStdDev = Some (trial_std_dev lib sd numTeams h ps k),
        bestTrialIndex = int k + 1\<rparr> \<and>
     (\<forall>i<Suc n. trial_std_dev lib sd numTeams h ps k \<le> trial_std_dev lib sd numTeams h ps i) \<and>
     (\<forall>i<k. trial_std_dev lib sd numTeams h ps k < trial_std_dev lib sd numTeams h ps i)"
proof (induction n)
  case 0
  show ?case
    by (intro exI [of _ 0]) (simp add: trial_step_unfold initial_selection_def)
next
  case (Suc n)
  let ?d = "trial_std_dev lib sd numTeams h ps"
  let ?t = "run_trial lib sd numTeams h ps"
  let ?step = "trial_step lib sd numTeams h ps"
  from Suc.IH obtain k where k: "k < Suc n"
    "foldl ?step initial_selection [0..<Suc n] =
       \<lparr>bestAssignment = ?t k, lowestStdDev = Some (?d k), bestTrialIndex = int k + 1\<rparr>"
    "\<forall>i<Suc n. ?d k \<le> ?d i" "\<forall>i<k. ?d k < ?d i"
    by blast
  have unfold: "foldl ?step initial_selection [0..<Suc (Suc n)] =
      ?step \<lparr>bestAssignment = ?t k, lowestStdDev = Some (?d k), bestTrialIndex = int k + 1\<rparr> (Suc n)"
    using k(2) by simp
  show ?case
  proof (cases "?d (Suc n) < ?d k")
    case True
    have "foldl ?step initial_selection [0..<Suc (Suc n)] =
        \<lparr>bestAssignment = ?t (Suc n), lowestStdDev = Some (?d (Suc n)),
         bestTrialIndex = int (Suc n) + 1\<rparr>"
      unfolding unfold using True by (simp add: trial_step_unfold)
    moreover have "\<forall>i<Suc (Suc n). ?d (Suc n) \<le> ?d i"
      using True k(3) by (auto simp: less_Suc_eq [of _ "Suc n"] intro: less_imp_le order_less_le_trans)
    moreover have "\<forall>i<Suc n. ?d (Suc n) < ?d i"
      using True k(3) by (auto intro: order_less_le_trans)
    ultimately show ?thesis
      by (intro exI [of _ "Suc n"]) blast
  next
    case False
    have "foldl ?step initial_selection [0..<Suc (Suc n)] =
        \<lparr>bestAssignment = ?t k, lowestStdDev = Some (?d k), bestTrialIndex = int k + 1\<rparr>"
      unfolding unfold using False by (simp add: trial_step_unfold)
    moreover have "\<forall>i<Suc (Suc n). ?d k \<le> ?d i"
      using False k(3) by (auto simp: less_Suc_eq [of _ "Suc n"])
    ultimately show ?thesis
      using k(1,4) by (intro exI [of _ k]) auto
  qed
qed

lemma run_trials_first_minimum:
  "\<exists>k<trials.
     run_trials lib sd numTeams h ps =
       \<lparr>bestAssignment = run_trial lib sd numTeams h ps k,
        lowestStdDev = Some (trial_std_dev lib sd numTeams h ps k),
        bestTrialIndex = int k + 1\<rparr> \<and>
     (\<forall>i<trials. trial_std_dev lib sd numTeams h ps k \<le> trial_std_dev lib sd numTeams h ps i) \<and>
     (\<forall>i<k. trial_std_dev lib sd numTeams h ps k < trial_std_dev lib sd numTeams h ps i)"
proof -
  have "trials = Suc 9" by (simp add: trials_def)
  then show ?thesis
    unfolding run_trials_def using trials_keep_first_minimum [of 9 lib sd numTeams h ps] by simp
qed

lemma length_run_trial: "length (run_trial lib sd numTeams h ps i) = to_length numTeams"
  by (simp add: run_trial_def length_assign_players length_new_teams)

lemma team_average_max: "team_average t = total_engagement_score t / real (max 1 (length (players t)))"
  by (cases "players t") (simp_all add: team_average_def max_def)

text \<open>
  C2. The selector makes exactly ten passes, for the indices \<open>0\<close> to \<open>9\<close>. There is
  a trial \<open>k\<close> among them whose teams, dispersion and index plus one are what the
  loop ends with; its dispersion is at most that of each of the ten trials and strictly
  below that of every earlier trial, so that on a tie the earliest trial is kept. The
  partition as it is printed, sorted by team id, has the same dispersion. Every trial
  has \<open>to_length numTeams\<close> teams, its dispersion is what
  \<open>calculateStandardDeviation\<close> gives on the team averages, which for at least one
  team is the population standard deviation (dividing by the number of teams), and a
  team's average divides its total by the number of its players, or by \<open>1\<close> when it
  has none.
\<close>

theorem trial_selector_first_minimum:
  "trials = 10 \<and>
   run_trials lib sd numTeams h ps =
     foldl (trial_step lib sd numTeams h ps) initial_selection [0..<10] \<and>
   (\<exists>k<10.
      run_trials lib sd numTeams h ps =
        \<lparr>bestAssignment = run_trial lib sd numTeams h ps k,
         lowestStdDev = Some (trial_std_dev lib sd numTeams h ps k),
         bestTrialIndex = int k + 1\<rparr> \<and>
      (\<forall>i<10. trial_std_dev lib sd numTeams h ps k \<le> trial_std_dev lib sd numTeams h ps i) \<and>
      (\<forall>i<k. trial_std_dev lib sd numTeams h ps k < trial_std_dev lib sd numTeams h ps i) \<and>
      calculateStandardDeviation
          (map team_average (sort_key team_id (bestAssignment (run_trials lib sd numTeams h ps)))) =
        trial_std_dev lib sd numTeams h ps k) \<and>
   (\<forall>i. length (run_trial lib sd numTeams h ps i) = to_length numTeams \<and>
        trial_std_dev lib sd numTeams h ps i =
          calculateStandardDeviation (map team_average (run_trial lib sd numTeams h ps i)) \<and>
        (1 \<le> numTeams \<longrightarrow>
           trial_std_dev lib sd numTeams h ps i =
             population_standard_deviation (map team_average (run_trial lib sd numTeams h ps i)))) \<and>
   (\<forall>t. team_average t = total_engagement_score t / real (max 1 (length (players t))))"
proof -
  have t10: "trials = 10" by (simp add: trials_def)
  from run_trials_first_minimum [of lib sd numTeams h ps]
  obtain k where k: "k < 10"
    "run_trials lib sd numTeams h ps =
        \<lparr>bestAssignment = run_trial lib sd numTeams h ps k,
         lowestStdDev = Some (trial_std_dev lib sd numTeams h ps k),
         bestTrialIndex = int k + 1\<rparr>"
    "\<forall>i<10. trial_std_dev lib sd numTeams h ps k \<le> trial_std_dev lib sd numTeams h ps i"
    "\<forall>i<k. trial_std_dev lib sd numTeams h ps k < trial_std_dev lib sd numTeams h ps i"
    unfolding t10 by blast
  have "mset (map team_average (sort_key team_id (run_trial lib sd numTeams h ps k))) =
      mset (map team_average (run_trial lib sd numTeams h ps k))"
    by simp
  then have sorted_same: "calculateStandardDeviation
        (map team_average (sort_key team_id (bestAssignment (run_trials lib sd numTeams h ps)))) =
      trial_std_dev lib sd numTeams h ps k"
    unfolding trial_std_dev_def k(2) by (simp add: calculateStandardDeviation_mset)
  have pop: "trial_std_dev lib sd numTeams h ps i =
      population_standard_deviation (map team_average (run_trial lib sd numTeams h ps i))"
    if "1 \<le> numTeams" for i
  proof -
    have "length (run_trial lib sd numTeams h ps i) \<noteq> 0"
      using to_length_pos [OF that] by (simp add: length_run_trial)
    then have "map team_average (run_trial lib sd numTeams h ps i) \<noteq> []" by simp
    then show ?thesis
      unfolding trial_std_dev_def by (rule calculateStandardDeviation_population)
  qed
  have "\<exists>k<10.
      run_trials lib sd numTeams h ps =
        \<lparr>bestAssignment = run_trial lib sd numTeams h ps k,
         lowestStdDev = Some (trial_std_dev lib sd numTeams h ps k),
         bestTrialIndex = int k + 1\<rparr> \<and>
      (\<forall>i<10. trial_std_dev lib sd numTeams h ps k \<le> trial_std_dev lib sd numTeams h ps i) \<and>
      (\<forall>i<k. trial_std_dev lib sd numTeams h ps k < trial_std_dev lib sd numTeams h ps i) \<and>
      calculateStandardDeviation
          (map team_average (sort_key team_id (bestAssignment (run_trials lib sd numTeams h ps)))) =
        trial_std_dev lib sd numTeams h ps k"
    using k sorted_same by blast
  moreover have "run_trials lib sd numTeams h ps =
     foldl (trial_step lib sd numTeams h ps) initial_selection [0..<10]"
    by (simp add: run_trials_def t10)
  moreover have "\<forall>i. length (run_trial lib sd numTeams h ps i) = to_length numTeams \<and>
        trial_std_dev lib sd numTeams h ps i =
          calculateStandardDeviation (map team_average (run_trial lib sd numTeams h ps i)) \<and>
        (1 \<le> numTeams \<longrightarrow>
           trial_std_dev lib sd numTeams h ps i =
             population_standard_deviation (map team_average (run_trial lib sd numTeams h ps i)))"
    using pop by (simp add: length_run_trial trial_std_dev_def)
  ultimately show ?thesis
    using t10 team_average_max by blast
qed

lemma example_seed_state:
  assumes "i < 10"
  shows "seedrandom example_library (trial_seed example_library 42 i) = 48 + i"
proof -
  have "string_of_nat i = [char_of (48 + i)]"
    using assms by (subst string_of_nat.simps) simp
  moreover have "(48 + i) mod 256 = 48 + i" using assms by simp
  ultimately show ?thesis
    by (simp add: example_library_def trial_seed_def)
qed

lemma example_draws:
  "random_index (Abs_unit_interval (1 / 2)) (Suc (Suc 0)) = 1"
  "random_index (Abs_unit_interval (1 / 2)) (Suc 0) = 0"
  "random_index (Abs_unit_interval 0) n = 0"
  by (simp_all add: random_index_def Abs_unit_interval_inverse)

lemma example_trial_even:
  assumes "i < 10" "even i"
  shows "run_trial example_library 42 2 example_scored_heap [0, 1] i =
     [\<lparr>team_id = 2, players = [1], total_engagement_score = 2 / 3\<rparr>,
      \<lparr>team_id = 1, players = [0], total_engagement_score = 1 / 3\<rparr>]"
proof -
  have "fst (shuffle (rng example_library) [0, 1] (48 + i)) = [0, 1::nat]"
    using assms(2) by (simp add: shuffle_def example_library_def example_draws Let_def)
  then show ?thesis
    by (simp add: run_trial_def example_seed_state [OF assms(1)] Let_def
        assign_players_def assign_player_def new_teams_def to_length_2
        example_scored_heap_values)
qed

lemma example_trial_odd:
  assumes "i < 10" "odd i"
  shows "run_trial example_library 42 2 example_scored_heap [0, 1] i =
     [\<lparr>team_id = 2, players = [0], total_engagement_score = 1 / 3\<rparr>,
      \<lparr>team_id = 1, players = [1], total_engagement_score = 2 / 3\<rparr>]"
proof -
  have "fst (shuffle (rng example_library) [0, 1] (48 + i)) = [1, 0::nat]"
    using assms(2) by (simp add: shuffle_def example_library_def example_draws Let_def)
  then show ?thesis
    by (simp add: run_trial_def example_seed_state [OF assms(1)] Let_def
        assign_players_def assign_player_def new_teams_def to_length_2
        example_scored_heap_values)
qed

lemma sqrt_36th: "sqrt (1 / 36) = 1 / 6"
  by (rule real_sqrt_unique) (simp_all add: power2_eq_square)

lemma example_trial_std_dev:
  assumes "i < 10"
  shows "trial_std_dev example_library 42 2 example_scored_heap [0, 1] i = 1 / 6"
proof (cases "even i")
  case True
  show ?thesis
    unfolding trial_std_dev_def example_trial_even [OF assms True]
    by (simp add: calculateStandardDeviation_def team_average_def Let_def power2_eq_square sqrt_36th)
next
  case False
  show ?thesis
    unfolding trial_std_dev_def example_trial_odd [OF assms False]
    by (simp add: calculateStandardDeviation_def team_average_def Let_def power2_eq_square sqrt_36th)
qed

theorem trial_selector_first_minimum_witness:
  "(1::real) \<le> 2 \<and>
   run_trials example_library 42 2 example_scored_heap [0, 1] =
     \<lparr>bestAssignment =
        [\<lparr>team_id = 2, players = [1], total_engagement_score = 2 / 3\<rparr>,
         \<lparr>team_id = 1, players = [0], total_engagement_score = 1 / 3\<rparr>],
      lowestStdDev = Some (1 / 6),
      bestTrialIndex = 1\<rparr> \<and>
   population_standard_deviation
       (map team_average (run_trial example_library 42 2 example_scored_heap [0, 1] 1)) = 1 / 6"
proof -
  let ?d = "trial_std_dev example_library 42 2 example_scored_heap [0, 1]"
  have one: "(1::real) \<le> 2" by simp
  from trial_selector_first_minimum [of example_library 42 2 example_scored_heap "[0, 1]"]
  obtain k where k: "k < 10"
    "run_trials example_library 42 2 example_scored_heap [0, 1] =
        \<lparr>bestAssignment = run_trial example_library 42 2 example_scored_heap [0, 1] k,
         lowestStdDev = Some (?d k), bestTrialIndex = int k + 1\<rparr>"
    "\<forall>i<k. ?d k < ?d i"
    and pop: "\<forall>i. 1 \<le> (2::real) \<longrightarrow> ?d i =
      population_standard_deviation
        (map team_average (run_trial example_library 42 2 example_scored_heap [0, 1] i))"
    by blast
  have "k = 0"
  proof (rule ccontr)
    assume "k \<noteq> 0"
    then have "?d k < ?d 0" using k(3) by simp
    then show False
      using example_trial_std_dev [OF k(1)] example_trial_std_dev [of 0] by simp
  qed
  then have "run_trials example_library 42 2 example_scored_heap [0, 1] =
     \<lparr>bestAssignment =
        [\<lparr>team_id = 2, players = [1], total_engagement_score = 2 / 3\<rparr>,
         \<lparr>team_id = 1, players = [0], total_engagement_score = 1 / 3\<rparr>],
      lowestStdDev = Some (1 / 6),
      bestTrialIndex = 1\<rparr>"
    using k(2) example_trial_std_dev [of 0] example_trial_even [of 0] by simp
  moreover have "population_standard_deviation
       (map team_average (run_trial example_library 42 2 example_scored_heap [0, 1] 1)) = 1 / 6"
    using pop one example_trial_std_dev [of 1] by simp
  ultimately show ?thesis using one by blast
qed

section \<open>The scoring\<close>

lemma Math_min_fold: "Math_min v vs = fold min vs v"
  by (induction vs arbitrary: v) (simp_all add: min.commute)

lemma Math_max_fold: "Math_max v vs = fold max vs v"
  by (induction vs arbitrary: v) (simp_all add: max.commute)

lemma Math_min_Min: "Math_min v vs = Min (set (v # vs))"
  by (simp only: Math_min_fold Min.set_eq_fold)

lemma Math_max_Max: "Math_max v vs = Max (set (v # vs))"
  by (simp only: Math_max_fold Max.set_eq_fold)

lemma min_max_table_lookup:
  "min_max_table h p ps ms tbl m =
     (if m \<in> set ms
      then Some (Math_min (get_metric (h p) m) (map (\<lambda>q. get_metric (h q) m) ps),
                 Math_max (get_metric (h p) m) (map (\<lambda>q. get_metric (h q) m) ps))
      else tbl m)"
  by (induction ms arbitrary: tbl) (auto simp: Let_def)

lemma min_max_table_spec:
  assumes "m \<in> set ms"
  shows "min_max_table h p ps ms tbl m = Some (metric_min h (p # ps) m, metric_max h (p # ps) m)"
proof -
  have "set (get_metric (h p) m # map (\<lambda>q. get_metric (h q) m) ps) =
      (\<lambda>q. get_metric (h q) m) ` set (p # ps)"
    by simp
  then show ?thesis
    using assms
    by (simp only: min_max_table_lookup Math_min_Min Math_max_Max metric_min_def metric_max_def if_True)
qed

lemma normalized_sum_score_field:
  "Engagement_score \<notin> set ms \<Longrightarrow>
   normalized_sum tbl (pl\<lparr>engagement_score := x\<rparr>) ms acc = normalized_sum tbl pl ms acc"
proof (induction ms arbitrary: acc)
  case Nil
  then show ?case by simp
next
  case (Cons m ms)
  then have "get_metric (pl\<lparr>engagement_score := x\<rparr>) m = get_metric pl m"
    by (cases m) simp_all
  with Cons show ?case by (simp add: Let_def split: option.splits prod.splits)
qed

lemma score_players_Cons:
  "score_players tbl ms h (p # ps) =
     (fst (score_players tbl ms
             (h(p := (h p)\<lparr>engagement_score := normalized_sum tbl (h p) ms 0 / real (length ms)\<rparr>)) ps),
      p # snd (score_players tbl ms
             (h(p := (h p)\<lparr>engagement_score := normalized_sum tbl (h p) ms 0 / real (length ms)\<rparr>)) ps))"
  by (simp add: Let_def split: prod.splits)

declare score_players.simps(2) [simp del]

lemma score_players_returns_array: "snd (score_players tbl ms h ps) = ps"
  by (induction ps arbitrary: h) (simp_all add: score_players_Cons)

lemma score_players_frame:
  "fst (score_players tbl ms h ps) q =
     (h q)\<lparr>engagement_score := engagement_score (fst (score_players tbl ms h ps) q)\<rparr> \<and>
   (q \<notin> set ps \<longrightarrow> fst (score_players tbl ms h ps) q = h q)"
proof (induction ps arbitrary: h)
  case Nil
  show ?case by simp
next
  case (Cons p ps)
  define h1 where
    "h1 = h(p := (h p)\<lparr>engagement_score := normalized_sum tbl (h p) ms 0 / real (length ms)\<rparr>)"
  define H where "H = fst (score_players tbl ms h1 ps)"
  have step: "fst (score_players tbl ms h (p # ps)) = H"
    by (simp add: score_players_Cons H_def h1_def)
  have at_p: "h1 p = (h p)\<lparr>engagement_score := normalized_sum tbl (h p) ms 0 / real (length ms)\<rparr>"
    by (simp add: h1_def)
  have off_p: "h1 q = h q" if "q \<noteq> p"
    using that by (simp add: h1_def)
  from Cons.IH [of h1]
  have a: "H q = (h1 q)\<lparr>engagement_score := engagement_score (H q)\<rparr>"
    and b: "q \<notin> set ps \<longrightarrow> H q = h1 q"
    unfolding H_def by simp_all
  show ?case
  proof (cases "q = p")
    case True
    have "H p = (h p)\<lparr>engagement_score := engagement_score (H p)\<rparr>"
      using a unfolding True at_p by simp
    then show ?thesis unfolding step True by simp
  next
    case False
    show ?thesis
      unfolding step using a b off_p [OF False] False by simp
  qed
qed

lemma score_players_heap:
  assumes "Engagement_score \<notin> set ms"
  shows "fst (score_players tbl ms h ps) =
     (\<lambda>q. if q \<in> set ps
          then (h q)\<lparr>engagement_score := normalized_sum tbl (h q) ms 0 / real (length ms)\<rparr>
          else h q)"
proof (induction ps arbitrary: h)
  case Nil
  show ?case by simp
next
  case (Cons p ps)
  let ?h1 = "h(p := (h p)\<lparr>engagement_score := normalized_sum tbl (h p) ms 0 / real (length ms)\<rparr>)"
  have step: "fst (score_players tbl ms h (p # ps)) = fst (score_players tbl ms ?h1 ps)"
    by (simp add: score_players_Cons)
  show ?case
    unfolding step Cons.IH [of ?h1]
    by (rule ext) (simp add: normalized_sum_score_field [OF assms])
qed

lemma normalized_sum_metrics_used:
  "normalized_sum (min_max_table h p ps metrics_used Map.empty) (h q) metrics_used 0 =
     normalized_value h (p # ps) Historical_event_engagements q
     + normalized_value h (p # ps) Historical_messages_sent q
     + normalized_value h (p # ps) Days_active_last_30 q"
proof -
  have tbl: "min_max_table h p ps metrics_used Map.empty m =
      Some (metric_min h (p # ps) m, metric_max h (p # ps) m)"
    if "m \<in> set metrics_used" for m
    using that by (rule min_max_table_spec)
  have "min_max_table h p ps metrics_used Map.empty Historical_event_engagements =
      Some (metric_min h (p # ps) Historical_event_engagements,
            metric_max h (p # ps) Historical_event_engagements)"
    "min_max_table h p ps metrics_used Map.empty Historical_messages_sent =
      Some (metric_min h (p # ps) Historical_messages_sent,
            metric_max h (p # ps) Historical_messages_sent)"
    "min_max_table h p ps metrics_used Map.empty Days_active_last_30 =
      Some (metric_min h (p # ps) Days_active_last_30,
            metric_max h (p # ps) Days_active_last_30)"
    by (rule tbl, simp add: metrics_used_def)+
  then show ?thesis
    unfolding normalized_value_def
    by (simp add: metrics_used_def Let_def del: min_max_table.simps)
qed

lemma normalizeAndScore_heap:
  "fst (normalizeAndScore h ps metrics_used) =
     (\<lambda>q. if q \<in> set ps then (h q)\<lparr>engagement_score := mean_normalized_score h ps q\<rparr> else h q)"
proof (cases ps)
  case Nil
  then show ?thesis by (simp add: normalizeAndScore_def)
next
  case (Cons p rest)
  have "Engagement_score \<notin> set metrics_used" by (simp add: metrics_used_def)
  then have heap_eq: "fst (score_players (min_max_table h p rest metrics_used Map.empty) metrics_used h (p # rest)) =
     (\<lambda>q. if q \<in> set (p # rest)
          then (h q)\<lparr>engagement_score :=
                 normalized_sum (min_max_table h p rest metrics_used Map.empty) (h q) metrics_used 0
                   / real (length metrics_used)\<rparr>
          else h q)"
    by (rule score_players_heap)
  have len: "real (length metrics_used) = 3" by (simp add: metrics_used_def)
  show ?thesis
  proof (rule ext)
    fix q
    show "fst (normalizeAndScore h ps metrics_used) q =
        (if q \<in> set ps then (h q)\<lparr>engagement_score := mean_normalized_score h ps q\<rparr> else h q)"
      unfolding Cons normalizeAndScore_def list.case heap_eq mean_normalized_score_def
      by (simp add: normalized_sum_metrics_used len)
  qed
qed

lemma normalizeAndScore_frame:
  "fst (normalizeAndScore h ps ms) q =
     (h q)\<lparr>engagement_score := engagement_score (fst (normalizeAndScore h ps ms) q)\<rparr> \<and>
   (q \<notin> set ps \<longrightarrow> fst (normalizeAndScore h ps ms) q = h q)"
proof (cases ps)
  case Nil
  then show ?thesis by (simp add: normalizeAndScore_def)
next
  case (Cons p rest)
  show ?thesis
    unfolding Cons normalizeAndScore_def list.case by (rule score_players_frame)
qed

lemma normalizeAndScore_array: "snd (normalizeAndScore h ps ms) = ps"
  by (cases ps) (simp_all add: normalizeAndScore_def score_players_returns_array)

lemma normalized_value_bounds:
  assumes "p \<in> set ps"
  shows "0 \<le> normalized_value h ps m p \<and> normalized_value h ps m p \<le> 1"
proof -
  let ?S = "(\<lambda>q. get_metric (h q) m) ` set ps"
  have fin: "finite ?S" by simp
  have mem: "get_metric (h p) m \<in> ?S" using assms by simp
  have lo: "metric_min h ps m \<le> get_metric (h p) m"
    unfolding metric_min_def using fin mem by (rule Min_le)
  have hi: "get_metric (h p) m \<le> metric_max h ps m"
    unfolding metric_max_def using fin mem by (rule Max_ge)
  show ?thesis
  proof (cases "metric_max h ps m = metric_min h ps m")
    case True
    then show ?thesis by (simp add: normalized_value_def)
  next
    case False
    with lo hi have "0 < metric_max h ps m - metric_min h ps m" by simp
    with lo hi False show ?thesis
      by (simp add: normalized_value_def)
  qed
qed

lemma example_raw_heap_values:
  "example_raw_heap =
     (\<lambda>_. blank_player)
       (0 := \<lparr>player_id = ''a'', historical_event_engagements = 1,
              historical_messages_sent = 2, days_active_last_30 = 1, engagement_score = 0\<rparr>,
        1 := \<lparr>player_id = ''b'', historical_event_engagements = 2,
              historical_messages_sent = 1, days_active_last_30 = 2, engagement_score = 0\<rparr>)"
  by (simp add: example_raw_heap_def example_records_def new_player_def)

lemma example_scores:
  "engagement_score (fst (normalizeAndScore example_raw_heap [0, 1] metrics_used) 0) = 1 / 3"
  "engagement_score (fst (normalizeAndScore example_raw_heap [0, 1] metrics_used) 1) = 2 / 3"
  by (simp_all add: normalizeAndScore_def score_players_Cons metrics_used_def Let_def
      example_raw_heap_values)

text \<open>
  C3. For a player of a (therefore non-empty) collection, the score the Scorer stores is
  the mean over the three metrics of the value rescaled between the least and the
  greatest value that metric has among all players of the collection, a metric with
  equal least and greatest value counting \<open>0\<close>; the score lies between \<open>0\<close> and
  \<open>1\<close>.
\<close>

theorem scorer_mean_of_normalized:
  assumes "p \<in> set ps"
  shows "engagement_score (fst (normalizeAndScore h ps metrics_used) p) = mean_normalized_score h ps p \<and>
     0 \<le> engagement_score (fst (normalizeAndScore h ps metrics_used) p) \<and>
     engagement_score (fst (normalizeAndScore h ps metrics_used) p) \<le> 1"
proof -
  have eq: "engagement_score (fst (normalizeAndScore h ps metrics_used) p) = mean_normalized_score h ps p"
    using assms by (simp add: normalizeAndScore_heap)
  have "0 \<le> mean_normalized_score h ps p \<and> mean_normalized_score h ps p \<le> 1"
    using normalized_value_bounds [OF assms, of h Historical_event_engagements]
      normalized_value_bounds [OF assms, of h Historical_messages_sent]
      normalized_value_bounds [OF assms, of h Days_active_last_30]
    unfolding mean_normalized_score_def by simp
  with eq show ?thesis by simp
qed

theorem scorer_mean_of_normalized_witness:
  "(0::nat) \<in> set [0, 1] \<and>
   engagement_score (fst (normalizeAndScore example_raw_heap [0, 1] metrics_used) 0) = 1 / 3 \<and>
   mean_normalized_score example_raw_heap [0, 1] 0 = 1 / 3"
proof -
  have m: "(0::nat) \<in> set [0, 1]" by simp
  from scorer_mean_of_normalized [OF m, of example_raw_heap] example_scores(1) m
  show ?thesis by simp
qed

text \<open>
  C9, as the program behaves: the Scorer returns a new array holding the references it was
  given and writes the \<open>engagement_score\<close> field of the objects in place. Nothing else
  changes: every object keeps its \<open>player_id\<close> and its three metric values, and an
  object that is not in the collection is left as it was.
\<close>

theorem scorer_writes_only_scores:
  "snd (normalizeAndScore h ps ms) = ps \<and>
   (\<forall>q. player_id (fst (normalizeAndScore h ps ms) q) = player_id (h q) \<and>
        historical_event_engagements (fst (normalizeAndScore h ps ms) q) =
          historical_event_engagements (h q) \<and>
        historical_messages_sent (fst (normalizeAndScore h ps ms) q) =
          historical_messages_sent (h q) \<and>
        days_active_last_30 (fst (normalizeAndScore h ps ms) q) = days_active_last_30 (h q)) \<and>
   (\<forall>q. q \<notin> set ps \<longrightarrow> fst (normalizeAndScore h ps ms) q = h q)"
proof -
  note frame = normalizeAndScore_frame [of h ps ms]
  have fields: "player_id (fst (normalizeAndScore h ps ms) q) = player_id (h q) \<and>
        historical_event_engagements (fst (normalizeAndScore h ps ms) q) =
          historical_event_engagements (h q) \<and>
        historical_messages_sent (fst (normalizeAndScore h ps ms) q) =
          historical_messages_sent (h q) \<and>
        days_active_last_30 (fst (normalizeAndScore h ps ms) q) = days_active_last_30 (h q)" for q
  proof -
    from normalizeAndScore_frame [of h ps ms q] obtain x where "fst (normalizeAndScore h ps ms) q = (h q)\<lparr>engagement_score := x\<rparr>"
      by blast
    then show ?thesis by simp
  qed
  from frame fields show ?thesis
    by (simp add: normalizeAndScore_array)
qed

theorem scorer_writes_only_scores_witness:
  "(5::nat) \<notin> set [0, 1] \<and>
   fst (normalizeAndScore example_raw_heap [0, 1] metrics_used) 5 = example_raw_heap 5 \<and>
   snd (normalizeAndScore example_raw_heap [0, 1] metrics_used) = [0, 1] \<and>
   historical_messages_sent (fst (normalizeAndScore example_raw_heap [0, 1] metrics_used) 0) = 2"
proof -
  have "historical_messages_sent (example_raw_heap 0) = 2"
    by (simp add: example_raw_heap_values)
  then show ?thesis
    using scorer_writes_only_scores [of example_raw_heap "[0, 1]" metrics_used] by simp
qed

text \<open>
  C9 as stated fails: the record at address \<open>1\<close> of the input collection has score
  \<open>0\<close> before the call and \<open>2/3\<close> after it, in the same object.
\<close>

theorem scorer_mutates_input_counterexample:
  "engagement_score (example_raw_heap 1) = 0 \<and>
   engagement_score (fst (normalizeAndScore example_raw_heap [0, 1] metrics_used) 1) = 2 / 3 \<and>
   fst (normalizeAndScore example_raw_heap [0, 1] metrics_used) 1 \<noteq> example_raw_heap 1"
proof -
  have a: "engagement_score (example_raw_heap 1) = 0"
    by (simp add: example_raw_heap_values)
  have b: "engagement_score (fst (normalizeAndScore example_raw_heap [0, 1] metrics_used) 1) = 2 / 3"
    by (rule example_scores(2))
  from a b have "fst (normalizeAndScore example_raw_heap [0, 1] metrics_used) 1 \<noteq> example_raw_heap 1"
    by auto
  with a b show ?thesis by blast
qed

section \<open>Conservation of the players\<close>

lemma mset_concat_map_cong:
  assumes "mset xs = mset ys"
  shows "mset (concat (map f xs)) = mset (concat (map f ys))"
proof -
  have "mset (concat (map f zs)) = sum_mset (image_mset (\<lambda>z. mset (f z)) (mset zs))" for zs :: "'a list"
    by (induction zs) simp_all
  then show ?thesis using assms by simp
qed

lemma assign_player_members:
  assumes "ts \<noteq> []"
  shows "mset (concat (map players (assign_player h ts p))) =
     add_mset p (mset (concat (map players ts)))"
proof -
  obtain t rest where s: "sort_key total_engagement_score ts = t # rest"
    using assms by (cases "sort_key total_engagement_score ts") (auto dest: arg_cong [where f = length])
  have "mset (t # rest) = mset ts"
    using s [symmetric] by simp
  then have "mset (concat (map players (t # rest))) = mset (concat (map players ts))"
    by (rule mset_concat_map_cong)
  then show ?thesis
    by (simp add: assign_player_def s)
qed

lemma assign_players_members:
  assumes "ts \<noteq> []"
  shows "mset (concat (map players (assign_players h ts ps))) =
     mset (concat (map players ts)) + mset ps"
  using assms
proof (induction ps arbitrary: ts)
  case Nil
  then show ?case by (simp add: assign_players_def)
next
  case (Cons p ps)
  have ne: "assign_player h ts p \<noteq> []"
    using Cons.prems length_assign_player [of h ts p] by auto
  have "assign_players h ts (p # ps) = assign_players h (assign_player h ts p) ps"
    by (simp add: assign_players_def)
  then show ?case
    using Cons.IH [OF ne] assign_player_members [OF Cons.prems, of h p] by simp
qed

lemma new_teams_no_members: "concat (map players (new_teams numTeams)) = []"
  by (simp add: new_teams_def)

lemma shuffle_mset: "mset (fst (shuffle f arr g)) = mset arr"
  unfolding shuffle_def by (rule shuffle_loop_mset) simp

lemma run_trial_members:
  assumes "1 \<le> numTeams"
  shows "mset (concat (map players (run_trial lib sd numTeams h ps i))) = mset ps"
proof -
  have "new_teams numTeams \<noteq> []"
    using to_length_pos [OF assms] length_new_teams [of numTeams] by auto
  then show ?thesis
    unfolding run_trial_def Let_def
    by (simp add: assign_players_members new_teams_no_members shuffle_mset)
qed

lemma allocate_players_Cons:
  "allocate_players h a (r # rs) =
     (fst (allocate_players (h(a := new_player r)) (Suc a) rs),
      a # snd (allocate_players (h(a := new_player r)) (Suc a) rs))"
  by (simp split: prod.splits)

declare allocate_players.simps(2) [simp del]

lemma allocate_players_refs: "snd (allocate_players h a rs) = [a..<a + length rs]"
proof (induction rs arbitrary: h a)
  case Nil
  show ?case by simp
next
  case (Cons r rs)
  have "[a..<a + length (r # rs)] = a # [Suc a..<Suc a + length rs]"
    by (subst upt_conv_Cons) simp_all
  then show ?case
    by (simp only: allocate_players_Cons snd_conv Cons.IH)
qed

lemma allocate_players_heap:
  "fst (allocate_players h a rs) q =
     (if a \<le> q \<and> q < a + length rs then new_player (rs ! (q - a)) else h q)"
proof (induction rs arbitrary: h a)
  case Nil
  show ?case by auto
next
  case (Cons r rs)
  show ?case
    unfolding allocate_players_Cons fst_conv Cons.IH
    by (auto simp: Suc_diff_le nth_Cons')
qed

lemma read_refs: "snd (readAndProcessPlayerData h0 records) = [0..<length records]"
proof -
  obtain h ps where a: "allocate_players h0 0 records = (h, ps)"
    by (cases "allocate_players h0 0 records")
  then have "ps = [0..<length records]"
    using allocate_players_refs [of h0 0 records] by simp
  then show ?thesis
    by (simp add: readAndProcessPlayerData_def a normalizeAndScore_array)
qed

lemma read_player_id:
  assumes "q < length records"
  shows "player_id (fst (readAndProcessPlayerData h0 records) q) = rec_player_id (records ! q)"
proof -
  obtain h ps where a: "allocate_players h0 0 records = (h, ps)"
    by (cases "allocate_players h0 0 records")
  have "h q = new_player (records ! q)"
    using allocate_players_heap [of h0 0 records q] assms by (simp add: a)
  moreover obtain x where "fst (normalizeAndScore h ps metrics_used) q = (h q)\<lparr>engagement_score := x\<rparr>"
    using normalizeAndScore_frame [of h ps metrics_used q] by blast
  ultimately show ?thesis
    by (simp add: readAndProcessPlayerData_def a new_player_def)
qed

lemma main_runs_a_trial:
  "\<exists>k<10. \<exists>l.
     main lib \<lparr>teams = Some numTeams, seed = Some sd, debug = d\<rparr> h0 records =
       Inr (print_report (fst (readAndProcessPlayerData h0 records))
             \<lparr>bestAssignment =
                run_trial lib sd numTeams (fst (readAndProcessPlayerData h0 records))
                  [0..<length records] k,
              lowestStdDev = l,
              bestTrialIndex = int k + 1\<rparr>)"
proof -
  let ?h = "fst (readAndProcessPlayerData h0 records)"
  have rp: "readAndProcessPlayerData h0 records = (?h, [0..<length records])"
    using read_refs [of h0 records] by (simp add: prod_eq_iff)
  from run_trials_first_minimum [of lib sd numTeams ?h "[0..<length records]"]
  obtain k where "k < 10"
    "run_trials lib sd numTeams ?h [0..<length records] =
       \<lparr>bestAssignment = run_trial lib sd numTeams ?h [0..<length records] k,
        lowestStdDev = Some (trial_std_dev lib sd numTeams ?h [0..<length records] k),
        bestTrialIndex = int k + 1\<rparr>"
    by (auto simp: trials_def)
  then show ?thesis
    unfolding main_def by (subst rp) auto
qed

lemma final_assignment_report:
  "final_assignment (print_report h \<lparr>bestAssignment = ts, lowestStdDev = l, bestTrialIndex = b\<rparr>) =
     sort_key team_id ts"
  by (simp add: print_report_def Let_def)

lemma assignment_lines_report:
  "map fst (assignment_lines (print_report h s)) =
     map (\<lambda>p. player_id (h p)) (concat (map players (final_assignment (print_report h s))))"
proof -
  have "map fst (concat (map (\<lambda>t. map (\<lambda>p. (player_id (h p), team_id t)) (players t)) ts)) =
      map (\<lambda>p. player_id (h p)) (concat (map players ts))" for ts :: "Team list"
    by (induction ts) simp_all
  then show ?thesis
    by (simp add: print_report_def Let_def)
qed

text \<open>
  C5. With at least one team, the players of the teams of every trial, taken together,
  are the players given to the trial, each as often as it was given. The run ends with
  a report; the addresses of the objects created for the rows are \<open>0\<close> up to the
  number of rows, each of them is in exactly one team of the reported partition exactly
  once, and the printed lines name the rows' \<open>player_id\<close>s in that order.
\<close>

theorem players_conserved:
  assumes "1 \<le> numTeams"
  shows "mset (concat (map players (run_trial lib sd numTeams h ps i))) = mset ps \<and>
     snd (readAndProcessPlayerData h0 records) = [0..<length records] \<and>
     (\<exists>rep. main lib \<lparr>teams = Some numTeams, seed = Some sd, debug = d\<rparr> h0 records = Inr rep \<and>
        mset (concat (map players (final_assignment rep))) = mset [0..<length records] \<and>
        distinct (concat (map players (final_assignment rep))) \<and>
        map fst (assignment_lines rep) =
          map (\<lambda>p. rec_player_id (records ! p)) (concat (map players (final_assignment rep))))"
proof -
  let ?h = "fst (readAndProcessPlayerData h0 records)"
  from main_runs_a_trial [of lib numTeams sd d h0 records]
  obtain k l where m:
    "main lib \<lparr>teams = Some numTeams, seed = Some sd, debug = d\<rparr> h0 records =
       Inr (print_report ?h
             \<lparr>bestAssignment = run_trial lib sd numTeams ?h [0..<length records] k,
              lowestStdDev = l, bestTrialIndex = int k + 1\<rparr>)"
    by blast
  let ?rep = "print_report ?h
             \<lparr>bestAssignment = run_trial lib sd numTeams ?h [0..<length records] k,
              lowestStdDev = l, bestTrialIndex = int k + 1\<rparr>"
  have "mset (sort_key team_id (run_trial lib sd numTeams ?h [0..<length records] k)) =
      mset (run_trial lib sd numTeams ?h [0..<length records] k)"
    by simp
  then have "mset (concat (map players (final_assignment ?rep))) =
      mset (concat (map players (run_trial lib sd numTeams ?h [0..<length records] k)))"
    unfolding final_assignment_report by (rule mset_concat_map_cong)
  then have all: "mset (concat (map players (final_assignment ?rep))) = mset [0..<length records]"
    using run_trial_members [OF assms, of lib sd ?h "[0..<length records]" k] by simp
  have "distinct [0..<length records]" by simp
  with all have dist: "distinct (concat (map players (final_assignment ?rep)))"
    by (metis mset_eq_imp_distinct_iff)
  have "set (concat (map players (final_assignment ?rep))) = set [0..<length records]"
    using all by (rule mset_eq_setD)
  then have "p < length records" if "p \<in> set (concat (map players (final_assignment ?rep)))" for p
    using that by simp
  then have "player_id (?h p) = rec_player_id (records ! p)"
    if "p \<in> set (concat (map players (final_assignment ?rep)))" for p
    using that by (simp only: read_player_id)
  then have "map (\<lambda>p. player_id (?h p)) (concat (map players (final_assignment ?rep))) =
      map (\<lambda>p. rec_player_id (records ! p)) (concat (map players (final_assignment ?rep)))"
    by (intro map_cong refl)
  then have lines: "map fst (assignment_lines ?rep) =
      map (\<lambda>p. rec_player_id (records ! p)) (concat (map players (final_assignment ?rep)))"
    by (simp only: assignment_lines_report)
  from m all dist lines
  have "\<exists>rep. main lib \<lparr>teams = Some numTeams, seed = Some sd, debug = d\<rparr> h0 records = Inr rep \<and>
        mset (concat (map players (final_assignment rep))) = mset [0..<length records] \<and>
        distinct (concat (map players (final_assignment rep))) \<and>
        map fst (assignment_lines rep) =
          map (\<lambda>p. rec_player_id (records ! p)) (concat (map players (final_assignment rep)))"
    by blast
  with run_trial_members [OF assms, of lib sd h ps i] read_refs [of h0 records]
  show ?thesis by blast
qed

theorem players_conserved_witness:
  "(1::real) \<le> 2 \<and>
   mset (concat (map players (run_trial example_library 42 2 example_scored_heap [0, 1] 3))) =
     mset [0, 1] \<and>
   (\<exists>rep. main example_library \<lparr>teams = Some 2, seed = Some 42, debug = False\<rparr>
            (\<lambda>_. blank_player) example_records = Inr rep \<and>
      mset (concat (map players (final_assignment rep))) = mset [0, 1] \<and>
      map fst (assignment_lines rep) =
        map (\<lambda>p. rec_player_id (example_records ! p)) (concat (map players (final_assignment rep))))"
proof -
  have one: "(1::real) \<le> 2" by simp
  have "length example_records = 2" by (simp add: example_records_def)
  moreover have "[0..<2] = [0, 1::nat]" by (simp add: upt_conv_Cons)
  ultimately show ?thesis
    using players_conserved [OF one, of example_library 42 example_scored_heap "[0, 1]" 3
        "\<lambda>_. blank_player" example_records False] one
    by (simp only:) blast
qed

section \<open>More teams than players\<close>

lemma assign_player_spread:
  assumes inv: "\<forall>t\<in>set ts.
        (players t = [] \<and> total_engagement_score t = 0) \<or>
        (\<exists>q. players t = [q] \<and> total_engagement_score t = engagement_score (h q) \<and>
             0 < engagement_score (h q))"
    and room: "length (filter (\<lambda>t. players t \<noteq> []) ts) < length ts"
    and pos: "0 < engagement_score (h p)"
  shows "(\<forall>t\<in>set (assign_player h ts p).
        (players t = [] \<and> total_engagement_score t = 0) \<or>
        (\<exists>q. players t = [q] \<and> total_engagement_score t = engagement_score (h q) \<and>
             0 < engagement_score (h q))) \<and>
     length (filter (\<lambda>t. players t \<noteq> []) (assign_player h ts p)) =
       Suc (length (filter (\<lambda>t. players t \<noteq> []) ts))"
proof -
  have "ts \<noteq> []" using room by auto
  then obtain t rest where s: "sort_key total_engagement_score ts = t # rest"
    by (cases "sort_key total_engagement_score ts") (auto dest: arg_cong [where f = length])
  have perm: "mset (t # rest) = mset ts"
    using s [symmetric] by simp
  then have sets: "set (t # rest) = set ts"
    by (rule mset_eq_setD)
  have "filter (\<lambda>t. players t \<noteq> []) ts \<noteq> ts"
    using room by auto
  then obtain e where e: "e \<in> set ts" "players e = []"
    by (auto simp: filter_id_conv)
  then have e0: "total_engagement_score e = 0" using inv by auto
  have "sorted (map total_engagement_score (t # rest))"
    using sorted_sort_key [of total_engagement_score ts] by (simp only: s)
  then have "total_engagement_score t \<le> total_engagement_score e"
    using e(1) sets by auto
  then have "total_engagement_score t \<le> 0" using e0 by simp
  moreover have "t \<in> set ts" using sets by auto
  ultimately have t: "players t = []" "total_engagement_score t = 0"
    using inv by force+
  have count: "length (filter (\<lambda>t. players t \<noteq> []) ts) =
      length (filter (\<lambda>t. players t \<noteq> []) (t # rest))"
  proof -
    have "mset (filter (\<lambda>t. players t \<noteq> []) ts) = mset (filter (\<lambda>t. players t \<noteq> []) (t # rest))"
      using perm by (simp only: mset_filter)
    then show ?thesis by (rule mset_eq_length)
  qed
  have result: "assign_player h ts p =
      t\<lparr>players := [p], total_engagement_score := engagement_score (h p)\<rparr> # rest"
    by (simp add: assign_player_def s t)
  have "\<forall>u\<in>set rest.
        (players u = [] \<and> total_engagement_score u = 0) \<or>
        (\<exists>q. players u = [q] \<and> total_engagement_score u = engagement_score (h q) \<and>
             0 < engagement_score (h q))"
    using inv sets by auto
  then show ?thesis
    unfolding result count using pos t by simp
qed

lemma assign_players_spread:
  assumes "\<forall>t\<in>set ts.
        (players t = [] \<and> total_engagement_score t = 0) \<or>
        (\<exists>q. players t = [q] \<and> total_engagement_score t = engagement_score (h q) \<and>
             0 < engagement_score (h q))"
    and "length (filter (\<lambda>t. players t \<noteq> []) ts) + length ps < length ts"
    and "\<forall>p\<in>set ps. 0 < engagement_score (h p)"
  shows "(\<forall>t\<in>set (assign_players h ts ps).
        (players t = [] \<and> total_engagement_score t = 0) \<or>
        (\<exists>q. players t = [q] \<and> total_engagement_score t = engagement_score (h q) \<and>
             0 < engagement_score (h q))) \<and>
     length (filter (\<lambda>t. players t \<noteq> []) (assign_players h ts ps)) =
       length (filter (\<lambda>t. players t \<noteq> []) ts) + length ps"
  using assms
proof (induction ps arbitrary: ts)
  case Nil
  then show ?case by (simp add: assign_players_def)
next
  case (Cons p ps)
  have room: "length (filter (\<lambda>t. players t \<noteq> []) ts) < length ts"
    using Cons.prems(2) by simp
  have pos: "0 < engagement_score (h p)"
    using Cons.prems(3) by simp
  note step = assign_player_spread [OF Cons.prems(1) room pos]
  have unfold: "assign_players h ts (p # ps) = assign_players h (assign_player h ts p) ps"
    by (simp add: assign_players_def)
  have "length (filter (\<lambda>t. players t \<noteq> []) (assign_player h ts p)) + length ps
      < length (assign_player h ts p)"
    using step Cons.prems(2) by (simp add: length_assign_player)
  moreover have "\<forall>p\<in>set ps. 0 < engagement_score (h p)"
    using Cons.prems(3) by simp
  ultimately show ?case
    unfolding unfold using Cons.IH [of "assign_player h ts p"] step by simp
qed

lemma run_trial_spread:
  assumes "length ps < to_length numTeams"
    and "\<forall>p\<in>set ps. 0 < engagement_score (h p)"
  shows "(\<forall>t\<in>set (run_trial lib sd numTeams h ps i).
        (players t = [] \<and> total_engagement_score t = 0) \<or>
        (\<exists>q. players t = [q] \<and> total_engagement_score t = engagement_score (h q))) \<and>
     length (filter (\<lambda>t. players t \<noteq> []) (run_trial lib sd numTeams h ps i)) = length ps"
proof -
  let ?sh = "fst (shuffle (rng lib) ps (seedrandom lib (trial_seed lib sd i)))"
  have m: "mset ?sh = mset ps" by (rule shuffle_mset)
  have len: "length ?sh = length ps" using m by (rule mset_eq_length)
  have "set ?sh = set ps" using m by (rule mset_eq_setD)
  then have pos: "\<forall>p\<in>set ?sh. 0 < engagement_score (h p)" using assms(2) by simp
  have inv0: "\<forall>t\<in>set (new_teams numTeams).
        (players t = [] \<and> total_engagement_score t = 0) \<or>
        (\<exists>q. players t = [q] \<and> total_engagement_score t = engagement_score (h q) \<and>
             0 < engagement_score (h q))"
    by (simp add: new_teams_def)
  have none: "filter (\<lambda>t. players t \<noteq> []) (new_teams numTeams) = []"
    by (simp add: new_teams_def)
  have room: "length (filter (\<lambda>t. players t \<noteq> []) (new_teams numTeams)) + length ?sh
      < length (new_teams numTeams)"
    using assms(1) by (simp add: none len length_new_teams)
  from assign_players_spread [OF inv0 room pos] show ?thesis
    unfolding run_trial_def Let_def by (auto simp: none len)
qed

text \<open>
  C6, as the program behaves: when there are more teams than players and every player's
  score is positive, the reported partition has as many teams with exactly one player
  as there are players, all other teams have no player, a team with one player has
  that player's score as its average, and an empty team has average \<open>0\<close>.
\<close>

theorem more_teams_than_players:
  assumes "length records < to_length numTeams"
    and "\<forall>q<length records. 0 < engagement_score (fst (readAndProcessPlayerData h0 records) q)"
  shows "\<exists>rep. main lib \<lparr>teams = Some numTeams, seed = Some sd, debug = d\<rparr> h0 records = Inr rep \<and>
      length (final_assignment rep) = to_length numTeams \<and>
      length (filter (\<lambda>t. length (players t) = 1) (final_assignment rep)) = length records \<and>
      length (filter (\<lambda>t. length (players t) = 0) (final_assignment rep)) =
        to_length numTeams - length records \<and>
      (\<forall>t\<in>set (final_assignment rep).
         (players t = [] \<and> team_average t = 0) \<or>
         (\<exists>q. players t = [q] \<and>
              team_average t = engagement_score (fst (readAndProcessPlayerData h0 records) q)))"
proof -
  let ?h = "fst (readAndProcessPlayerData h0 records)"
  from main_runs_a_trial [of lib numTeams sd d h0 records]
  obtain k l where m:
    "main lib \<lparr>teams = Some numTeams, seed = Some sd, debug = d\<rparr> h0 records =
       Inr (print_report ?h
             \<lparr>bestAssignment = run_trial lib sd numTeams ?h [0..<length records] k,
              lowestStdDev = l, bestTrialIndex = int k + 1\<rparr>)"
    by blast
  let ?T = "run_trial lib sd numTeams ?h [0..<length records] k"
  let ?rep = "print_report ?h \<lparr>bestAssignment = ?T, lowestStdDev = l, bestTrialIndex = int k + 1\<rparr>"
  have fin: "final_assignment ?rep = sort_key team_id ?T"
    by (rule final_assignment_report)
  have a1: "length [0..<length records] < to_length numTeams" using assms(1) by simp
  have a2: "\<forall>p\<in>set [0..<length records]. 0 < engagement_score (?h p)" using assms(2) by simp
  from run_trial_spread [OF a1 a2, of lib sd k]
  have inv: "\<forall>t\<in>set ?T.
        (players t = [] \<and> total_engagement_score t = 0) \<or>
        (\<exists>q. players t = [q] \<and> total_engagement_score t = engagement_score (?h q))"
    and count: "length (filter (\<lambda>t. players t \<noteq> []) ?T) = length records"
    by simp_all
  have len: "length (final_assignment ?rep) = to_length numTeams"
    by (simp add: fin length_run_trial)
  have "filter (\<lambda>t. length (players t) = 1) ?T = filter (\<lambda>t. players t \<noteq> []) ?T"
    using inv by (intro filter_cong refl) auto
  then have ones: "length (filter (\<lambda>t. length (players t) = 1) (final_assignment ?rep)) = length records"
    using count by (simp add: fin filter_sort)
  have "length (filter (\<lambda>t. players t \<noteq> []) ?T) + length (filter (\<lambda>t. \<not> players t \<noteq> []) ?T) =
      length ?T"
    by (rule sum_length_filter_compl)
  then have "length (filter (\<lambda>t. length (players t) = 0) ?T) = to_length numTeams - length records"
    using count by (simp add: length_run_trial)
  then have zeros: "length (filter (\<lambda>t. length (players t) = 0) (final_assignment ?rep)) =
      to_length numTeams - length records"
    by (simp add: fin filter_sort)
  have avgs: "\<forall>t\<in>set (final_assignment ?rep).
         (players t = [] \<and> team_average t = 0) \<or>
         (\<exists>q. players t = [q] \<and> team_average t = engagement_score (?h q))"
  proof
    fix t
    assume "t \<in> set (final_assignment ?rep)"
    then have "t \<in> set ?T" by (simp add: fin)
    with inv have "(players t = [] \<and> total_engagement_score t = 0) \<or>
        (\<exists>q. players t = [q] \<and> total_engagement_score t = engagement_score (?h q))"
      by blast
    then show "(players t = [] \<and> team_average t = 0) \<or>
         (\<exists>q. players t = [q] \<and> team_average t = engagement_score (?h q))"
      by (auto simp: team_average_def)
  qed
  from m len ones zeros avgs show ?thesis by blast
qed

theorem more_teams_than_players_witness:
  "length example_records < to_length 3 \<and>
   0 < engagement_score (example_scored_heap 0) \<and>
   0 < engagement_score (example_scored_heap 1) \<and>
   (\<exists>rep. main example_library \<lparr>teams = Some 3, seed = Some 42, debug = False\<rparr>
            (\<lambda>_. blank_player) example_records = Inr rep \<and>
      length (final_assignment rep) = 3 \<and>
      length (filter (\<lambda>t. length (players t) = 1) (final_assignment rep)) = 2 \<and>
      length (filter (\<lambda>t. length (players t) = 0) (final_assignment rep)) = 1)"
proof -
  have l3: "to_length 3 = 3" by (simp add: to_length_def)
  have n: "length example_records = 2" by (simp add: example_records_def)
  have h1: "length example_records < to_length 3" by (simp add: l3 n)
  have p0: "0 < engagement_score (example_scored_heap 0)"
    and p1: "0 < engagement_score (example_scored_heap 1)"
    by (simp_all add: example_scored_heap_values)
  have h2: "\<forall>q<length example_records.
      0 < engagement_score (fst (readAndProcessPlayerData (\<lambda>_. blank_player) example_records) q)"
    using p0 p1 by (simp add: n example_scored_heap_def less_Suc_eq numeral_2_eq_2)
  from more_teams_than_players [OF h1 h2, of example_library 42 False]
  have "\<exists>rep. main example_library \<lparr>teams = Some 3, seed = Some 42, debug = False\<rparr>
            (\<lambda>_. blank_player) example_records = Inr rep \<and>
      length (final_assignment rep) = 3 \<and>
      length (filter (\<lambda>t. length (players t) = 1) (final_assignment rep)) = 2 \<and>
      length (filter (\<lambda>t. length (players t) = 0) (final_assignment rep)) = 1"
    unfolding l3 n by auto
  with h1 p0 p1 show ?thesis by blast
qed

lemma run_trials_first_wins:
  assumes "\<forall>i<10. trial_std_dev lib sd numTeams h ps 0 \<le> trial_std_dev lib sd numTeams h ps i"
  shows "run_trials lib sd numTeams h ps =
     \<lparr>bestAssignment = run_trial lib sd numTeams h ps 0,
      lowestStdDev = Some (trial_std_dev lib sd numTeams h ps 0),
      bestTrialIndex = 1\<rparr>"
proof -
  from run_trials_first_minimum [of lib sd numTeams h ps]
  obtain k where k: "k < 10"
    "run_trials lib sd numTeams h ps =
       \<lparr>bestAssignment = run_trial lib sd numTeams h ps k,
        lowestStdDev = Some (trial_std_dev lib sd numTeams h ps k),
        bestTrialIndex = int k + 1\<rparr>"
    "\<forall>i<k. trial_std_dev lib sd numTeams h ps k < trial_std_dev lib sd numTeams h ps i"
    by (auto simp: trials_def)
  have "k = 0"
  proof (rule ccontr)
    assume "k \<noteq> 0"
    then have "trial_std_dev lib sd numTeams h ps k < trial_std_dev lib sd numTeams h ps 0"
      using k(3) by simp
    with assms k(1) show False by force
  qed
  with k(2) show ?thesis by simp
qed

lemma example_low_heap_values:
  "readAndProcessPlayerData (\<lambda>_. blank_player) example_low_records =
     ((\<lambda>_. blank_player)
       (0 := \<lparr>player_id = ''a'', historical_event_engagements = 1,
              historical_messages_sent = 1, days_active_last_30 = 1, engagement_score = 0\<rparr>,
        1 := \<lparr>player_id = ''b'', historical_event_engagements = 2,
              historical_messages_sent = 2, days_active_last_30 = 2, engagement_score = 1\<rparr>),
      [0, 1])"
  by (simp add: readAndProcessPlayerData_def example_low_records_def allocate_players_Cons
      new_player_def normalizeAndScore_def score_players_Cons metrics_used_def Let_def fun_upd_twist)

lemma to_length_3: "to_length 3 = Suc (Suc (Suc 0))"
  by (simp add: to_length_def)

lemma example_low_trial_even:
  assumes "i < 10" "even i"
  shows "run_trial example_library 42 3 example_low_heap [0, 1] i =
     [\<lparr>team_id = 1, players = [0, 1], total_engagement_score = 1\<rparr>,
      \<lparr>team_id = 2, players = [], total_engagement_score = 0\<rparr>,
      \<lparr>team_id = 3, players = [], total_engagement_score = 0\<rparr>]"
proof -
  have "fst (shuffle (rng example_library) [0, 1] (48 + i)) = [0, 1::nat]"
    using assms(2) by (simp add: shuffle_def example_library_def example_draws Let_def)
  then show ?thesis
    by (simp add: run_trial_def example_seed_state [OF assms(1)] Let_def
        assign_players_def assign_player_def new_teams_def to_length_3
        example_low_heap_def example_low_heap_values)
qed

lemma example_low_trial_odd:
  assumes "i < 10" "odd i"
  shows "run_trial example_library 42 3 example_low_heap [0, 1] i =
     [\<lparr>team_id = 2, players = [0], total_engagement_score = 0\<rparr>,
      \<lparr>team_id = 3, players = [], total_engagement_score = 0\<rparr>,
      \<lparr>team_id = 1, players = [1], total_engagement_score = 1\<rparr>]"
proof -
  have "fst (shuffle (rng example_library) [0, 1] (48 + i)) = [1, 0::nat]"
    using assms(2) by (simp add: shuffle_def example_library_def example_draws Let_def)
  then show ?thesis
    by (simp add: run_trial_def example_seed_state [OF assms(1)] Let_def
        assign_players_def assign_player_def new_teams_def to_length_3
        example_low_heap_def example_low_heap_values)
qed

lemma example_low_std_dev:
  assumes "i < 10"
  shows "trial_std_dev example_library 42 3 example_low_heap [0, 1] i =
     (if even i then sqrt (1 / 18) else sqrt (2 / 9))"
proof (cases "even i")
  case True
  show ?thesis
    unfolding trial_std_dev_def example_low_trial_even [OF assms True]
    using True
    by (simp add: calculateStandardDeviation_def team_average_def Let_def power2_eq_square)
next
  case False
  show ?thesis
    unfolding trial_std_dev_def example_low_trial_odd [OF assms False]
    using False
    by (simp add: calculateStandardDeviation_def team_average_def Let_def power2_eq_square)
qed

text \<open>
  C6 as stated fails: three teams, two players, the first of them with score \<open>0\<close>.
  The reported partition puts both players on team \<open>1\<close> and leaves teams \<open>2\<close> and
  \<open>3\<close> empty.
\<close>

theorem more_teams_than_players_counterexample:
  "main example_library \<lparr>teams = Some 3, seed = Some 42, debug = False\<rparr>
       (\<lambda>_. blank_player) example_low_records =
     Inr \<lparr>final_assignment =
            [\<lparr>team_id = 1, players = [0, 1], total_engagement_score = 1\<rparr>,
             \<lparr>team_id = 2, players = [], total_engagement_score = 0\<rparr>,
             \<lparr>team_id = 3, players = [], total_engagement_score = 0\<rparr>],
          best_trial = 1,
          assignment_lines = [(''a'', 1), (''b'', 1)],
          team_summary = [(1, 2, 1 / 2), (2, 0, 0), (3, 0, 0)]\<rparr>"
proof -
  have h: "example_low_heap =
      (\<lambda>_. blank_player)
       (0 := \<lparr>player_id = ''a'', historical_event_engagements = 1,
              historical_messages_sent = 1, days_active_last_30 = 1, engagement_score = 0\<rparr>,
        1 := \<lparr>player_id = ''b'', historical_event_engagements = 2,
              historical_messages_sent = 2, days_active_last_30 = 2, engagement_score = 1\<rparr>)"
    by (simp add: example_low_heap_def example_low_heap_values)
  have rp: "readAndProcessPlayerData (\<lambda>_. blank_player) example_low_records =
      (example_low_heap, [0, 1])"
    by (simp add: h example_low_heap_values)
  have "\<forall>i<10. trial_std_dev example_library 42 3 example_low_heap [0, 1] 0
      \<le> trial_std_dev example_library 42 3 example_low_heap [0, 1] i"
  proof (intro allI impI)
    fix i :: nat
    assume i: "i < 10"
    have z: "trial_std_dev example_library 42 3 example_low_heap [0, 1] 0 = sqrt (1 / 18)"
      using example_low_std_dev [of 0] by simp
    show "trial_std_dev example_library 42 3 example_low_heap [0, 1] 0
        \<le> trial_std_dev example_library 42 3 example_low_heap [0, 1] i"
      unfolding z example_low_std_dev [OF i] by simp
  qed
  then have "run_trials example_library 42 3 example_low_heap [0, 1] =
     \<lparr>bestAssignment = run_trial example_library 42 3 example_low_heap [0, 1] 0,
      lowestStdDev = Some (trial_std_dev example_library 42 3 example_low_heap [0, 1] 0),
      bestTrialIndex = 1\<rparr>"
    by (rule run_trials_first_wins)
  then have sel: "run_trials example_library 42 3 example_low_heap [0, 1] =
     \<lparr>bestAssignment =
        [\<lparr>team_id = 1, players = [0, 1], total_engagement_score = 1\<rparr>,
         \<lparr>team_id = 2, players = [], total_engagement_score = 0\<rparr>,
         \<lparr>team_id = 3, players = [], total_engagement_score = 0\<rparr>],
      lowestStdDev = Some (trial_std_dev example_library 42 3 example_low_heap [0, 1] 0),
      bestTrialIndex = 1\<rparr>"
    using example_low_trial_even [of 0] by simp
  have ids: "player_id (example_low_heap 0) = ''a''" "player_id (example_low_heap 1) = ''b''"
    by (simp_all add: h)
  have "main example_library \<lparr>teams = Some 3, seed = Some 42, debug = False\<rparr>
       (\<lambda>_. blank_player) example_low_records =
     Inr (print_report example_low_heap (run_trials example_library 42 3 example_low_heap [0, 1]))"
    unfolding main_def by (simp add: rp)
  then show ?thesis
    unfolding sel using ids by (simp add: print_report_def Let_def team_average_def)
qed

section \<open>The shuffle against the standard algorithm\<close>

lemma random_index_draw: "random_index r (Suc i) = draw_index r i"
  by (simp add: random_index_def draw_index_def)

lemma draw_index_le: "draw_index r i \<le> i"
  using random_index_less [of "Suc i" r] by (simp add: random_index_draw)

lemma shuffle_loop_swap_down:
  "fst (shuffle_loop f (Suc k) arr g) = swap_down f k arr g"
proof (induction k arbitrary: arr g)
  case 0
  obtain r g' where step: "f g = (r, g')" by (cases "f g")
  have "random_index r (Suc 0) = 0"
    using random_index_less [of "Suc 0" r] by simp
  then show ?case by (simp add: step)
next
  case (Suc k)
  obtain r g' where step: "f g = (r, g')" by (cases "f g")
  have "fst (shuffle_loop f (Suc (Suc k)) arr g) =
      fst (shuffle_loop f (Suc k)
        (arr[Suc k := arr ! draw_index r (Suc k), draw_index r (Suc k) := arr ! Suc k]) g')"
    by (simp add: step Let_def random_index_draw del: shuffle_loop.simps(2)
        add: shuffle_loop.simps(2) [of f "Suc k"])
  also have "\<dots> = swap_down f k
        (arr[Suc k := arr ! draw_index r (Suc k), draw_index r (Suc k) := arr ! Suc k]) g'"
    by (rule Suc.IH)
  also have "\<dots> = swap_down f (Suc k) arr g"
    by (simp add: step Let_def)
  finally show ?case .
qed

lemma shuffle_standard: "fst (shuffle f arr g) = standard_shuffle f arr g"
proof (cases "length arr")
  case 0
  then show ?thesis by (simp add: shuffle_def standard_shuffle_def)
next
  case (Suc k)
  then show ?thesis
    unfolding shuffle_def standard_shuffle_def by (simp only: shuffle_loop_swap_down diff_Suc_1)
qed

text \<open>
  C4. The array \<^verbatim>\<open>shuffle\<close> returns is the one the standard swap-based shuffle
  produces from the same generator state: indices from the last down to \<open>1\<close>, each
  swapped with a drawn index between \<open>0\<close> and itself. It is a permutation of the
  input of the same length, and seeds that give the same generator state give the same
  permutation of the same input. (How the drawn integers are distributed is a property
  of the generator library, which is a parameter here.)
\<close>

theorem shuffle_is_standard_permutation:
  "fst (shuffle (rng lib) arr (seedrandom lib s)) =
     standard_shuffle (rng lib) arr (seedrandom lib s) \<and>
   mset (fst (shuffle (rng lib) arr (seedrandom lib s))) = mset arr \<and>
   length (fst (shuffle (rng lib) arr (seedrandom lib s))) = length arr \<and>
   (\<forall>r i. draw_index r i \<le> i \<and> random_index r (Suc i) = draw_index r i) \<and>
   (\<forall>s'. seedrandom lib s' = seedrandom lib s \<longrightarrow>
      fst (shuffle (rng lib) arr (seedrandom lib s')) =
        fst (shuffle (rng lib) arr (seedrandom lib s)))"
proof -
  have "length (fst (shuffle (rng lib) arr (seedrandom lib s))) = length arr"
    by (simp add: shuffle_def shuffle_loop_length)
  moreover have "mset (fst (shuffle (rng lib) arr (seedrandom lib s))) = mset arr"
    by (rule shuffle_mset)
  moreover have "fst (shuffle (rng lib) arr (seedrandom lib s)) =
      standard_shuffle (rng lib) arr (seedrandom lib s)"
    by (rule shuffle_standard)
  moreover have "\<forall>r i. draw_index r i \<le> i \<and> random_index r (Suc i) = draw_index r i"
    by (simp add: draw_index_le random_index_draw)
  ultimately show ?thesis by simp
qed

theorem shuffle_is_standard_permutation_witness:
  "fst (shuffle (rng example_library) [10, 20, 30 :: nat] (seedrandom example_library ''42-0'')) =
     [30, 10, 20] \<and>
   standard_shuffle (rng example_library) [10, 20, 30 :: nat] (seedrandom example_library ''42-0'') =
     [30, 10, 20] \<and>
   seedrandom example_library ''7-0'' = seedrandom example_library ''42-0'' \<and>
   fst (shuffle (rng example_library) [10, 20, 30 :: nat] (seedrandom example_library ''7-0'')) =
     [30, 10, 20]"
proof -
  have st: "seedrandom example_library ''42-0'' = 48" "seedrandom example_library ''7-0'' = 48"
    by (simp_all add: example_library_def)
  have "fst (shuffle (rng example_library) [10, 20, 30 :: nat] 48) = [30, 10, 20]"
    by (simp add: shuffle_def example_library_def random_index_def Abs_unit_interval_inverse Let_def)
  then show ?thesis
    using shuffle_is_standard_permutation [of example_library "[10, 20, 30 :: nat]" "''42-0''"]
    by (simp add: st)
qed

end
